theory Spec2Isabelle
  imports Main
begin

section \<open>Constants (constants.hpp)\<close>

definition MAP_SIZE :: int where
  "MAP_SIZE = 11"

text \<open>Direction tables \<^verbatim>\<open>DX\<close>, \<^verbatim>\<open>DY\<close>, \<^verbatim>\<open>OPPOSITE\<close>, indexed by a direction 0..3.
  A read outside the table is undefined in the source; here it is an out-of-range
  \<open>!\<close>, about which nothing can be proved.\<close>

definition DX :: "int \<Rightarrow> int" where
  "DX dir = [-1, 1, 0, 0] ! nat dir"

definition DY :: "int \<Rightarrow> int" where
  "DY dir = [0, 0, -1, 1] ! nat dir"

definition OPPOSITE :: "int \<Rightarrow> int" where
  "OPPOSITE dir = [1, 0, 3, 2] ! nat dir"

definition Direction_COUNT :: int where
  "Direction_COUNT = 4"

definition Token_IF :: int where "Token_IF = 5"
definition FUNC_F1 :: int where "FUNC_F1 = 10"
definition FUNC_F2 :: int where "FUNC_F2 = 11"
definition NUM_BASE :: int where "NUM_BASE = 100"
definition NUM_10 :: int where "NUM_10 = 100"
definition NUM_1 :: int where "NUM_1 = 101"
definition NUM_7 :: int where "NUM_7 = 107"
definition NUM_9 :: int where "NUM_9 = 109"
definition Token_LOOP :: int where "Token_LOOP = 110"
definition Token_END :: int where "Token_END = 112"
definition FUNC_LIB_START :: int where "FUNC_LIB_START = 113"
definition FUNC_LIB_END :: int where "FUNC_LIB_END = 998"
definition Token_EMPTY :: int where "Token_EMPTY = 999"

lemmas token_defs = Token_IF_def FUNC_F1_def FUNC_F2_def NUM_BASE_def NUM_10_def NUM_1_def
  NUM_7_def NUM_9_def Token_LOOP_def Token_END_def FUNC_LIB_START_def FUNC_LIB_END_def
  Token_EMPTY_def

definition is_direction :: "int \<Rightarrow> bool" where
  "is_direction token \<longleftrightarrow> token \<ge> 0 \<and> token \<le> 3"

definition is_num :: "int \<Rightarrow> bool" where
  "is_num token \<longleftrightarrow> token \<ge> NUM_BASE \<and> token \<le> NUM_9"

definition is_if_num :: "int \<Rightarrow> bool" where
  "is_if_num token \<longleftrightarrow> token \<ge> NUM_1 \<and> token \<le> NUM_7"

definition get_num_value :: "int \<Rightarrow> int" where
  "get_num_value token = (if token = NUM_10 then 10 else token - NUM_BASE)"

definition is_func_lib :: "int \<Rightarrow> bool" where
  "is_func_lib token \<longleftrightarrow> token \<ge> FUNC_LIB_START \<and> token \<le> FUNC_LIB_END"

definition SMALL_CHEESE :: int where "SMALL_CHEESE = 10"
definition BIG_CHEESE :: int where "BIG_CHEESE = 500"
definition CAT_COLLISION :: int where "CAT_COLLISION = -500"
definition WALL_COLLISION :: int where "WALL_COLLISION = -10"

definition DEFAULT_LIFE :: int where "DEFAULT_LIFE = 3"
definition DEFAULT_STEP_LIMIT :: int where "DEFAULT_STEP_LIMIT = 200"
definition DEFAULT_RED_ZONE :: int where "DEFAULT_RED_ZONE = 5"
definition DEFAULT_FUNC_CHANCE :: int where "DEFAULT_FUNC_CHANCE = 4"
definition NUM_CATS :: nat where "NUM_CATS = 2"
definition NUM_MOVBC :: nat where "NUM_MOVBC = 2"
definition NUM_CRZBC :: nat where "NUM_CRZBC = 2"
definition MAX_RANDOM_TRIES :: nat where "MAX_RANDOM_TRIES = 100"

section \<open>Machine integers\<close>

text \<open>The source stores coordinates and map cells in \<^verbatim>\<open>int8_t\<close>, counters in
  \<^verbatim>\<open>int16_t\<close> and the score in \<^verbatim>\<open>int32_t\<close>. Values are modelled as \<open>int\<close>; every
  narrowing conversion of the source is written out as a two's-complement wrap.\<close>

definition to_int8 :: "int \<Rightarrow> int" where
  "to_int8 v = (v + 128) mod 256 - 128"

definition to_int16 :: "int \<Rightarrow> int" where
  "to_int16 v = (v + 32768) mod 65536 - 32768"

definition to_int32 :: "int \<Rightarrow> int" where
  "to_int32 v = (v + 2147483648) mod 4294967296 - 2147483648"

section \<open>Game state (game_state.hpp)\<close>

text \<open>\<^verbatim>\<open>GridMap\<close> is an 11x11 array of \<^verbatim>\<open>int8_t\<close>, read as \<open>g row col\<close>.\<close>

type_synonym GridMap = "int \<Rightarrow> int \<Rightarrow> int"

record Position =
  x :: int
  y :: int

definition is_valid :: "Position \<Rightarrow> bool" where
  "is_valid p \<longleftrightarrow> x p \<ge> 0 \<and> x p < MAP_SIZE \<and> y p \<ge> 0 \<and> y p < MAP_SIZE"

definition move :: "Position \<Rightarrow> int \<Rightarrow> Position" where
  "move p dir = \<lparr> x = to_int8 (x p + DX dir), y = to_int8 (y p + DY dir) \<rparr>"

record Entity =
  pos :: Position
  last_pos :: Position
  direction :: int
  active :: bool

definition Entity_init :: Entity where
  "Entity_init = \<lparr> pos = \<lparr> x = 0, y = 0 \<rparr>, last_pos = \<lparr> x = 0, y = 0 \<rparr>,
                   direction = 0, active = True \<rparr>"

record GameState =
  wall :: GridMap
  sc :: GridMap
  junc :: GridMap
  deadend :: GridMap
  mouse :: Position
  mouse_last :: Position
  cats :: "Entity list"
  movbc :: "Entity list"
  crzbc :: "Entity list"
  score :: int
  life :: int
  step :: int
  step_limit :: int
  run :: int
  func_chance :: int
  red_zone :: int
  win_sign :: bool
  lose_sign :: bool
  catched :: bool

text \<open>\<^verbatim>\<open>GameState::reset\<close>; the three rosters are arrays of two entities.\<close>

definition GameState_reset :: GameState where
  "GameState_reset = \<lparr>
     wall = (\<lambda>i j. 0), sc = (\<lambda>i j. 0), junc = (\<lambda>i j. 0), deadend = (\<lambda>i j. 0),
     mouse = \<lparr> x = 10, y = 10 \<rparr>, mouse_last = \<lparr> x = 10, y = 10 \<rparr>,
     cats = replicate NUM_CATS Entity_init,
     movbc = replicate NUM_MOVBC Entity_init,
     crzbc = replicate NUM_CRZBC Entity_init,
     score = 0, life = DEFAULT_LIFE, step = 0, step_limit = DEFAULT_STEP_LIMIT, run = 0,
     func_chance = DEFAULT_FUNC_CHANCE, red_zone = DEFAULT_RED_ZONE,
     win_sign = False, lose_sign = False, catched = False \<rparr>"

definition all_cells :: "(int \<times> int) list" where
  "all_cells = concat (map (\<lambda>i. map (\<lambda>j. (int i, int j)) [0..<11]) [0..<11])"

definition count_remaining_cheese :: "GameState \<Rightarrow> int" where
  "count_remaining_cheese s = sum_list (map (\<lambda>(i, j). sc s i j) all_cells)"

definition grid_of :: "int list list \<Rightarrow> GridMap" where
  "grid_of rows = (\<lambda>i j. rows ! nat i ! nat j)"

definition WALL_DATA :: "int list list" where
  "WALL_DATA = [
    [0, 0, 0, 0, 1, 0, 1, 0, 0, 0, 0],
    [0, 1, 1, 0, 1, 0, 1, 0, 1, 1, 0],
    [0, 0, 0, 0, 0, 0, 0, 0, 0, 0, 0],
    [0, 1, 0, 1, 1, 0, 1, 1, 0, 1, 0],
    [0, 1, 0, 1, 1, 0, 1, 1, 0, 1, 0],
    [0, 1, 0, 0, 0, 0, 0, 0, 0, 1, 0],
    [0, 1, 1, 1, 0, 1, 0, 1, 1, 1, 0],
    [0, 0, 0, 0, 0, 0, 0, 0, 0, 0, 0],
    [1, 1, 1, 0, 1, 1, 1, 0, 1, 1, 1],
    [0, 0, 0, 0, 1, 1, 1, 0, 0, 0, 0],
    [0, 1, 1, 0, 0, 0, 0, 0, 1, 1, 0]]"

definition SC_DATA :: "int list list" where
  "SC_DATA = [
    [1, 1, 1, 1, 0, 1, 0, 1, 1, 1, 1],
    [1, 0, 0, 1, 0, 1, 0, 1, 0, 0, 1],
    [1, 1, 1, 1, 1, 1, 1, 1, 1, 1, 1],
    [1, 0, 1, 0, 0, 1, 0, 0, 1, 0, 1],
    [1, 0, 1, 0, 0, 1, 0, 0, 1, 0, 1],
    [1, 0, 1, 1, 1, 1, 1, 1, 1, 0, 1],
    [1, 0, 0, 0, 1, 0, 1, 0, 0, 0, 1],
    [1, 1, 1, 1, 1, 1, 1, 1, 1, 1, 1],
    [0, 0, 0, 1, 0, 0, 0, 1, 0, 0, 0],
    [1, 1, 1, 1, 0, 0, 0, 1, 1, 1, 1],
    [1, 0, 0, 1, 1, 1, 1, 1, 0, 0, 1]]"

definition JUNC_DATA :: "int list list" where
  "JUNC_DATA = [
    [0, 0, 0, 0, 0, 0, 0, 0, 0, 0, 0],
    [0, 0, 0, 0, 0, 0, 0, 0, 0, 0, 0],
    [1, 0, 1, 1, 0, 1, 0, 1, 1, 0, 1],
    [0, 0, 0, 0, 0, 0, 0, 0, 0, 0, 0],
    [0, 0, 0, 0, 0, 0, 0, 0, 0, 0, 0],
    [0, 0, 0, 0, 1, 1, 1, 0, 0, 0, 0],
    [0, 0, 0, 0, 0, 0, 0, 0, 0, 0, 0],
    [0, 0, 0, 1, 1, 0, 1, 1, 0, 0, 0],
    [0, 0, 0, 0, 0, 0, 0, 0, 0, 0, 0],
    [0, 0, 0, 1, 0, 0, 0, 1, 0, 0, 0],
    [0, 0, 0, 0, 0, 0, 0, 0, 0, 0, 0]]"

definition DEADEND_DATA :: "int list list" where
  "DEADEND_DATA = [
    [0, 0, 0, 0, 0, 1, 0, 0, 0, 0, 0],
    [0, 0, 0, 0, 0, 0, 0, 0, 0, 0, 0],
    [0, 0, 0, 0, 0, 0, 0, 0, 0, 0, 0],
    [0, 0, 0, 0, 0, 0, 0, 0, 0, 0, 0],
    [0, 0, 0, 0, 0, 0, 0, 0, 0, 0, 0],
    [0, 0, 0, 0, 0, 0, 0, 0, 0, 0, 0],
    [0, 0, 0, 0, 0, 0, 0, 0, 0, 0, 0],
    [0, 0, 0, 0, 0, 0, 0, 0, 0, 0, 0],
    [0, 0, 0, 0, 0, 0, 0, 0, 0, 0, 0],
    [0, 0, 0, 0, 0, 0, 0, 0, 0, 0, 0],
    [1, 0, 0, 0, 0, 0, 0, 0, 0, 0, 1]]"

definition mk_entity :: "int \<Rightarrow> int \<Rightarrow> int \<Rightarrow> Entity" where
  "mk_entity px py d = \<lparr> pos = \<lparr> x = px, y = py \<rparr>, last_pos = \<lparr> x = px, y = py \<rparr>,
                          direction = d, active = True \<rparr>"

text \<open>\<^verbatim>\<open>GameState::init_level3\<close>: the fixed level, with the cheese under the mouse
  removed. The stationary bonus items keep the default direction 0.\<close>

definition init_level3 :: GameState where
  "init_level3 = GameState_reset \<lparr>
     wall := grid_of WALL_DATA,
     sc := (\<lambda>i j. if i = 10 \<and> j = 10 then 0 else grid_of SC_DATA i j),
     junc := grid_of JUNC_DATA,
     deadend := grid_of DEADEND_DATA,
     mouse := \<lparr> x = 10, y = 10 \<rparr>, mouse_last := \<lparr> x = 10, y = 10 \<rparr>,
     cats := [mk_entity 2 2 1, mk_entity 5 5 3],
     movbc := [mk_entity 1 5 0, mk_entity 7 5 0],
     crzbc := [mk_entity 0 3 3, mk_entity 10 7 2] \<rparr>"

section \<open>The simulator object (simulator.hpp)\<close>

text \<open>The generator \<^verbatim>\<open>std::mt19937\<close> is an arbitrary infinite sequence of raw values;
  one call of a \<^verbatim>\<open>uniform_int_distribution\<close> over \<open>lo..hi\<close> consumes the next raw
  value and reduces it into the range.\<close>

type_synonym rng = "nat \<Rightarrow> nat"

definition uniform_int :: "int \<Rightarrow> int \<Rightarrow> rng \<Rightarrow> int \<times> rng" where
  "uniform_int lo hi g = (lo + int (g 0) mod (hi - lo + 1), (\<lambda>i. g (Suc i)))"

text \<open>\<^verbatim>\<open>function_library.hpp\<close> is not part of the sources at hand: the lookup
  \<^verbatim>\<open>func_lib_.get_function\<close> is the field \<open>func_lib_\<close>, an arbitrary function from an id
  to a token sequence.\<close>

record Simulator =
  m_state :: GameState
  m_func_lib :: "int \<Rightarrow> int list"
  m_rng :: rng
  m_level :: int

definition movable :: "Simulator \<Rightarrow> Position \<Rightarrow> int \<Rightarrow> bool" where
  "movable sim p dir =
     (let next = move p dir in
      if \<not> is_valid next then False
      else wall (m_state sim) (x next) (y next) = 0)"

definition move_pos :: "Position \<Rightarrow> int \<Rightarrow> Position" where
  "move_pos p dir =
     (let next = move p dir in
      \<lparr> x = max 0 (min (MAP_SIZE - 1) (x next)), y = max 0 (min (MAP_SIZE - 1) (y next)) \<rparr>)"

section \<open>Program parsing\<close>

record ParsedProgram =
  main_cmd :: "int list"
  func1 :: "int list"
  func2 :: "int list"

text \<open>The loop of \<^verbatim>\<open>parse_program\<close>, with the locals \<^verbatim>\<open>first_func_id\<close> and
  \<^verbatim>\<open>second_func_id\<close>.\<close>

fun parse_loop :: "(int \<Rightarrow> int list) \<Rightarrow> int list \<Rightarrow> ParsedProgram \<Rightarrow> int \<Rightarrow> int \<Rightarrow> ParsedProgram" where
  "parse_loop lib [] result first_func_id second_func_id = result"
| "parse_loop lib (token # rest) result first_func_id second_func_id =
     (if token = Token_END then result
      else if token = Token_EMPTY then parse_loop lib rest result first_func_id second_func_id
      else if is_func_lib token then
        (if first_func_id < 0 then
           parse_loop lib rest
             (result \<lparr> func1 := lib token, main_cmd := main_cmd result @ [FUNC_F1] \<rparr>)
             token second_func_id
         else if token = first_func_id then
           parse_loop lib rest (result \<lparr> main_cmd := main_cmd result @ [FUNC_F1] \<rparr>)
             first_func_id second_func_id
         else if second_func_id < 0 then
           parse_loop lib rest
             (result \<lparr> func2 := lib token, main_cmd := main_cmd result @ [FUNC_F2] \<rparr>)
             first_func_id token
         else if token = second_func_id then
           parse_loop lib rest (result \<lparr> main_cmd := main_cmd result @ [FUNC_F2] \<rparr>)
             first_func_id second_func_id
         else parse_loop lib rest result first_func_id second_func_id)
      else parse_loop lib rest (result \<lparr> main_cmd := main_cmd result @ [token] \<rparr>)
             first_func_id second_func_id)"

definition parse_program :: "Simulator \<Rightarrow> int list \<Rightarrow> ParsedProgram" where
  "parse_program sim program =
     parse_loop (m_func_lib sim) program \<lparr> main_cmd = [], func1 = [], func2 = [] \<rparr> (-1) (-1)"

section \<open>Breadth-first distance maps\<close>

text \<open>\<^verbatim>\<open>DistanceMap\<close> is an 11x11 array of \<^verbatim>\<open>int16_t\<close>.\<close>

type_synonym DistanceMap = "int \<Rightarrow> int \<Rightarrow> int"

definition grid_set :: "(int \<Rightarrow> int \<Rightarrow> int) \<Rightarrow> int \<Rightarrow> int \<Rightarrow> int \<Rightarrow> (int \<Rightarrow> int \<Rightarrow> int)" where
  "grid_set g i j v = g(i := (g i)(j := v))"

subsection \<open>\<^verbatim>\<open>GlobalDistanceCache::compute_distance_map\<close>\<close>

text \<open>The loop over the four directions for one dequeued cell: a neighbour that is on
  the board and still 0 gets \<^verbatim>\<open>cur_dist + 1\<close> (stored into an \<^verbatim>\<open>int16_t\<close>) and is
  enqueued.\<close>

fun gdc_expand :: "Position \<Rightarrow> int \<Rightarrow> int list \<Rightarrow> DistanceMap \<Rightarrow> Position list
    \<Rightarrow> DistanceMap \<times> Position list" where
  "gdc_expand cur cur_dist [] dist_map queue = (dist_map, queue)"
| "gdc_expand cur cur_dist (dir # dirs) dist_map queue =
     (let next = move cur dir in
      if is_valid next \<and> dist_map (x next) (y next) = 0
      then gdc_expand cur cur_dist dirs
             (grid_set dist_map (x next) (y next) (to_int16 (cur_dist + 1))) (queue @ [next])
      else gdc_expand cur cur_dist dirs dist_map queue)"

definition zero_cells :: "DistanceMap \<Rightarrow> nat" where
  "zero_cells dm = length (filter (\<lambda>(i, j). dm i j = 0) all_cells)"

definition wraps_to_zero :: "DistanceMap \<Rightarrow> Position \<Rightarrow> bool" where
  "wraps_to_zero dm p \<longleftrightarrow> to_int16 (dm (x p) (y p) + 1) = 0"

subsection \<open>Termination of the search\<close>

lemma filter_length_less:
  "\<forall>a\<in>set xs. P a \<longrightarrow> Q a \<Longrightarrow> \<exists>a\<in>set xs. Q a \<and> \<not> P a \<Longrightarrow>
   length (filter P xs) < length (filter Q xs)"
proof (induction xs)
  case Nil
  then show ?case by simp
next
  case (Cons a xs)
  have le: "length (filter P xs) \<le> length (filter Q xs)"
    using Cons.prems(1) by (induction xs) auto
  show ?case
  proof (cases "\<exists>b\<in>set xs. Q b \<and> \<not> P b")
    case True
    then have "length (filter P xs) < length (filter Q xs)"
      using Cons.IH Cons.prems(1) by simp
    then show ?thesis using Cons.prems(1) by auto
  next
    case False
    then have "Q a \<and> \<not> P a" using Cons.prems(2) by auto
    then show ?thesis using le by simp
  qed
qed

lemma set_all_cells: "set all_cells = (\<Union>i\<in>{0..<11}. (\<lambda>j. (int i, int j)) ` {0..<11})"
  unfolding all_cells_def set_concat set_map set_upt image_image ..

lemma in_all_cells: "(i, j) \<in> set all_cells \<longleftrightarrow> 0 \<le> i \<and> i < 11 \<and> 0 \<le> j \<and> j < 11"
proof
  assume "(i, j) \<in> set all_cells"
  then show "0 \<le> i \<and> i < 11 \<and> 0 \<le> j \<and> j < 11"
    unfolding set_all_cells by auto
next
  assume a: "0 \<le> i \<and> i < 11 \<and> 0 \<le> j \<and> j < 11"
  then have "nat i \<in> {0..<11}" "(i, j) = (int (nat i), int (nat j))" "nat j \<in> {0..<11}"
    by auto
  then show "(i, j) \<in> set all_cells"
    unfolding set_all_cells by blast
qed

lemma valid_in_all_cells: "is_valid p \<Longrightarrow> (x p, y p) \<in> set all_cells"
  by (simp add: in_all_cells is_valid_def MAP_SIZE_def)

lemma zero_cells_grid_set:
  assumes "(i, j) \<in> set all_cells" "dm i j = 0" "v \<noteq> 0"
  shows "zero_cells (grid_set dm i j v) < zero_cells dm"
  unfolding zero_cells_def
  apply (rule filter_length_less)
  using assms by (auto simp: grid_set_def split: if_splits)

lemma grid_set_same: "dm i j = v \<Longrightarrow> grid_set dm i j v = dm"
  by (auto simp: grid_set_def fun_eq_iff)

lemma gdc_expand_good:
  "to_int16 (d + 1) \<noteq> 0 \<Longrightarrow> gdc_expand cur d dirs dm q = (dm', q') \<Longrightarrow>
   (dm' = dm \<and> q' = q) \<or> zero_cells dm' < zero_cells dm"
proof (induction dirs arbitrary: dm q)
  case Nil
  then show ?case by simp
next
  case (Cons dir dirs)
  let ?n = "move cur dir"
  show ?case
  proof (cases "is_valid ?n \<and> dm (x ?n) (y ?n) = 0")
    case True
    let ?dm1 = "grid_set dm (x ?n) (y ?n) (to_int16 (d + 1))"
    have lt: "zero_cells ?dm1 < zero_cells dm"
      using True Cons.prems(1) by (intro zero_cells_grid_set valid_in_all_cells) auto
    have "gdc_expand cur d dirs ?dm1 (q @ [?n]) = (dm', q')"
      using Cons.prems(2) True by (simp add: Let_def)
    from Cons.IH[OF Cons.prems(1) this] lt show ?thesis by auto
  next
    case False
    then have "gdc_expand cur d dirs dm q = (dm', q')"
      using Cons.prems(2) by (auto simp add: Let_def)
    from Cons.IH[OF Cons.prems(1) this] show ?thesis .
  qed
qed

lemma gdc_expand_bad:
  "to_int16 (d + 1) = 0 \<Longrightarrow> gdc_expand cur d dirs dm q = (dm', q') \<Longrightarrow>
   dm' = dm \<and> (\<exists>ps. q' = q @ ps \<and> (\<forall>p\<in>set ps. dm (x p) (y p) = 0))"
proof (induction dirs arbitrary: q)
  case Nil
  then show ?case by simp
next
  case (Cons dir dirs)
  let ?n = "move cur dir"
  show ?case
  proof (cases "is_valid ?n \<and> dm (x ?n) (y ?n) = 0")
    case True
    then have "grid_set dm (x ?n) (y ?n) (to_int16 (d + 1)) = dm"
      using Cons.prems(1) by (simp add: grid_set_same)
    then have "gdc_expand cur d dirs dm (q @ [?n]) = (dm', q')"
      using Cons.prems(2) True by (simp add: Let_def)
    from Cons.IH[OF Cons.prems(1) this] True show ?thesis by auto
  next
    case False
    then have "gdc_expand cur d dirs dm q = (dm', q')"
      using Cons.prems(2) by (auto simp add: Let_def)
    from Cons.IH[OF Cons.prems(1) this] show ?thesis .
  qed
qed

definition bfs_rel :: "((DistanceMap \<times> Position list) \<times> (DistanceMap \<times> Position list)) set" where
  "bfs_rel = measures [\<lambda>(dm, q). zero_cells dm,
                       \<lambda>(dm, q). length (filter (wraps_to_zero dm) q),
                       \<lambda>(dm, q). length q]"

lemma gdc_expand_measure:
  assumes "gdc_expand cur (dm (x cur) (y cur)) dirs dm q = (dm', q')"
  shows "((dm', q'), (dm, cur # q)) \<in> bfs_rel"
proof (cases "to_int16 (dm (x cur) (y cur) + 1) = 0")
  case True
  from gdc_expand_bad[OF True assms] obtain ps where
    *: "dm' = dm" "q' = q @ ps" "\<forall>p\<in>set ps. dm (x p) (y p) = 0" by auto
  have "filter (wraps_to_zero dm) ps = []"
    using *(3) by (auto simp: filter_empty_conv wraps_to_zero_def to_int16_def)
  moreover have "wraps_to_zero dm cur" using True by (simp add: wraps_to_zero_def)
  ultimately show ?thesis using *
    by (simp add: bfs_rel_def)
next
  case False
  then have nw: "\<not> wraps_to_zero dm cur" by (simp add: wraps_to_zero_def)
  from gdc_expand_good[OF False assms] show ?thesis
    using nw by (auto simp: bfs_rel_def)
qed


definition directions :: "int list" where
  "directions = [0, 1, 2, 3]"

function gdc_loop :: "DistanceMap \<Rightarrow> Position list \<Rightarrow> DistanceMap" where
  "gdc_loop dist_map [] = dist_map"
| "gdc_loop dist_map (cur # queue) =
     (let cur_dist = dist_map (x cur) (y cur);
          (dist_map', queue') = gdc_expand cur cur_dist directions dist_map queue
      in gdc_loop dist_map' queue')"
  by pat_completeness auto
termination
proof (relation bfs_rel)
  show "wf bfs_rel" by (simp add: bfs_rel_def)
next
  fix dist_map cur queue cur_dist xa dm' q'
  assume "cur_dist = dist_map (x cur) (y cur)"
    "xa = gdc_expand cur cur_dist directions dist_map queue" "(dm', q') = xa"
  then show "((dm', q'), dist_map, cur # queue) \<in> bfs_rel"
    using gdc_expand_measure[of cur dist_map directions queue dm' q'] by simp
qed

definition init_dist_map :: "GridMap \<Rightarrow> DistanceMap" where
  "init_dist_map w = (\<lambda>i j. if w i j \<noteq> 0 then -1 else 0)"

definition compute_distance_map :: "GridMap \<Rightarrow> int \<Rightarrow> int \<Rightarrow> DistanceMap" where
  "compute_distance_map w start_row start_col =
     gdc_loop (grid_set (init_dist_map w) start_row start_col 1)
       [\<lparr> x = to_int8 start_row, y = to_int8 start_col \<rparr>]"

record GlobalDistanceCache =
  cache :: "DistanceMap list"
  initialized :: bool

definition GlobalDistanceCache_initialize :: "GridMap \<Rightarrow> GlobalDistanceCache \<Rightarrow> GlobalDistanceCache" where
  "GlobalDistanceCache_initialize w c =
     c \<lparr> cache := map (\<lambda>p. compute_distance_map w (int p div MAP_SIZE) (int p mod MAP_SIZE))
                    [0..<nat (MAP_SIZE * MAP_SIZE)],
         initialized := True \<rparr>"

definition GlobalDistanceCache_get :: "GlobalDistanceCache \<Rightarrow> int \<Rightarrow> int \<Rightarrow> DistanceMap" where
  "GlobalDistanceCache_get c row col = cache c ! nat (row * MAP_SIZE + col)"

record Globals =
  global_cache_enabled :: bool
  cache_instance :: GlobalDistanceCache

definition initialize_cache :: "Simulator \<Rightarrow> Globals \<Rightarrow> Globals" where
  "initialize_cache sim g =
     g \<lparr> cache_instance := GlobalDistanceCache_initialize (wall (m_state sim)) (cache_instance g),
         global_cache_enabled := True \<rparr>"

fun sim_expand :: "Position \<Rightarrow> int \<Rightarrow> int list \<Rightarrow> DistanceMap \<Rightarrow> Position list
    \<Rightarrow> DistanceMap \<times> Position list" where
  "sim_expand cur cur_dist [] dist_map queue = (dist_map, queue)"
| "sim_expand cur cur_dist (dir # dirs) dist_map queue =
     (let next = move cur dir in
      if is_valid next \<and> dist_map (x next) (y next) = 0
      then sim_expand cur cur_dist dirs
             (grid_set dist_map (x next) (y next) (to_int16 (cur_dist + 1))) (queue @ [next])
      else sim_expand cur cur_dist dirs dist_map queue)"

lemma sim_expand_eq: "sim_expand cur d dirs dm q = gdc_expand cur d dirs dm q"
  by (induction dirs arbitrary: dm q) (simp_all add: Let_def)

function sim_loop :: "DistanceMap \<Rightarrow> Position list \<Rightarrow> DistanceMap" where
  "sim_loop dist_map [] = dist_map"
| "sim_loop dist_map (cur # queue) =
     (let cur_dist = dist_map (x cur) (y cur);
          (dist_map', queue') = sim_expand cur cur_dist directions dist_map queue
      in sim_loop dist_map' queue')"
  by pat_completeness auto
termination
proof (relation bfs_rel)
  show "wf bfs_rel" by (simp add: bfs_rel_def)
next
  fix dist_map cur queue cur_dist xa dm' q'
  assume "cur_dist = dist_map (x cur) (y cur)"
    "xa = sim_expand cur cur_dist directions dist_map queue" "(dm', q') = xa"
  then show "((dm', q'), dist_map, cur # queue) \<in> bfs_rel"
    using gdc_expand_measure[of cur dist_map "directions" queue dm' q']
    by (simp add: sim_expand_eq)
qed

definition create_distance_map :: "Globals \<Rightarrow> Simulator \<Rightarrow> Position \<Rightarrow> DistanceMap" where
  "create_distance_map g sim target =
     (if global_cache_enabled g \<and> initialized (cache_instance g)
      then GlobalDistanceCache_get (cache_instance g) (x target) (y target)
      else sim_loop (grid_set (init_dist_map (wall (m_state sim))) (x target) (y target) 1)
             [target])"

lemma sim_loop_eq: "sim_loop dm q = gdc_loop dm q"
proof (induction dm q rule: gdc_loop.induct)
  case (1 dist_map)
  show ?case by simp
next
  case (2 dist_map cur queue)
  obtain dm' q' where e: "gdc_expand cur (dist_map (x cur) (y cur)) directions dist_map queue = (dm', q')"
    by fastforce
  from 2[OF refl e[symmetric] refl] e show ?case
    by (simp add: sim_expand_eq)
qed

declare gdc_loop.simps [simp del] sim_loop.simps [simp del]


section \<open>Program execution\<close>

record ActionResult =
  actions :: "int list"
  wall_collisions :: "int set"

text \<open>The reference parameters of \<^verbatim>\<open>process_commands\<close>: the action list and the
  wall-collision set under construction, the working copy of the game state and the running
  action index.\<close>

record ExecState = ActionResult +
  sim_state :: GameState
  action_idx :: int

text \<open>One attempted move, as written in the \<^verbatim>\<open>NORMAL\<close> branch and in the body of the
  \<^verbatim>\<open>LOOP\<close> loop: the action is always appended; a blocked attempt records its
  index.\<close>

definition attempt_move :: "Simulator \<Rightarrow> int \<Rightarrow> ExecState \<Rightarrow> ExecState" where
  "attempt_move sim cmd s =
     (if movable sim (mouse (sim_state s)) cmd
      then s \<lparr> sim_state := (sim_state s) \<lparr> mouse := move_pos (mouse (sim_state s)) cmd \<rparr>,
               actions := actions s @ [cmd],
               action_idx := action_idx s + 1 \<rparr>
      else s \<lparr> wall_collisions := insert (action_idx s) (wall_collisions s),
               actions := actions s @ [cmd],
               action_idx := action_idx s + 1 \<rparr>)"

fun loop_run :: "Simulator \<Rightarrow> int \<Rightarrow> nat \<Rightarrow> ExecState \<Rightarrow> ExecState" where
  "loop_run sim cmd 0 s = s"
| "loop_run sim cmd (Suc n) s = loop_run sim cmd n (attempt_move sim cmd s)"

definition if_measure :: "int \<Rightarrow> Position \<Rightarrow> nat" where
  "if_measure cmd p =
     (if \<not> is_valid p then 11
      else if cmd = 0 then nat (x p)
      else if cmd = 1 then nat (10 - x p)
      else if cmd = 2 then nat (y p)
      else nat (10 - y p))"

lemma movable_measure:
  assumes "is_direction cmd" "movable sim p cmd"
  shows "if_measure cmd (move_pos p cmd) < if_measure cmd p"
proof -
  from assms(1) have c: "cmd = 0 \<or> cmd = 1 \<or> cmd = 2 \<or> cmd = 3"
    by (auto simp: is_direction_def)
  from assms(2) have v: "is_valid (move p cmd)"
    by (auto simp: movable_def Let_def split: if_splits)
  then have mp: "move_pos p cmd = move p cmd"
    by (auto simp: move_pos_def Let_def is_valid_def MAP_SIZE_def)
  show ?thesis
  proof (cases "is_valid p")
    case False
    with v mp show ?thesis by (auto simp: if_measure_def is_valid_def MAP_SIZE_def)
  next
    case True
    with v mp c show ?thesis
      by (auto simp: if_measure_def is_valid_def MAP_SIZE_def move_def DX_def DY_def to_int8_def)
  qed
qed

text \<open>The \<^verbatim>\<open>while (remaining > 0)\<close> loop of the conditional run. The source enters it
  only under the branch condition \<^verbatim>\<open>is_direction(cmd)\<close>; the recursion repeats that
  condition, which makes it total.\<close>

function if_run :: "Simulator \<Rightarrow> int \<Rightarrow> int \<Rightarrow> ExecState \<Rightarrow> ExecState" where
  "if_run sim cmd remaining s =
     (if remaining > 0 \<and> is_direction cmd then
        (if movable sim (mouse (sim_state s)) cmd then
           (let s' = s \<lparr> sim_state := (sim_state s) \<lparr> mouse := move_pos (mouse (sim_state s)) cmd \<rparr>,
                         actions := actions s @ [cmd],
                         action_idx := action_idx s + 1 \<rparr>
            in if junc (sim_state s') (x (mouse (sim_state s'))) (y (mouse (sim_state s'))) \<noteq> 0
               then if_run sim cmd (remaining - 1) s'
               else if_run sim cmd remaining s')
         else s)
      else s)"
  by pat_completeness auto
termination
  by (relation "measure (\<lambda>(sim, cmd, remaining, s). if_measure cmd (mouse (sim_state s)))")
     (auto simp: movable_measure)

declare if_run.simps [simp del]

text \<open>The state machine of \<^verbatim>\<open>process_commands\<close> for one token that is neither the end
  sentinel, nor a filler, nor a call of a non-empty function: the locals
  \<^verbatim>\<open>need_next\<close>, \<^verbatim>\<open>pc\<close>, \<^verbatim>\<open>n_iter\<close> and the reference parameters.\<close>

definition state_machine :: "Simulator \<Rightarrow> int \<Rightarrow> int \<times> int \<times> int \<times> ExecState
    \<Rightarrow> int \<times> int \<times> int \<times> ExecState" where
  "state_machine sim cmd = (\<lambda>(need_next, pc, n_iter, s).
     if need_next = 0 then
       (if is_direction cmd then (need_next, pc, n_iter, attempt_move sim cmd s)
        else if cmd = Token_LOOP then (Token_LOOP, pc, n_iter, s)
        else if cmd = Token_IF then (Token_IF, pc, n_iter, s)
        else (need_next, pc, n_iter, s))
     else if need_next = Token_LOOP then
       (if is_num cmd then (cmd, Token_LOOP, get_num_value cmd, s)
        else (need_next, pc, n_iter, s))
     else if need_next = Token_IF then
       (if is_if_num cmd then (cmd, Token_IF, get_num_value cmd, s)
        else (cmd, Token_IF, n_iter, s))
     else if pc = Token_LOOP \<and> is_direction cmd then
       (0, 0, n_iter, loop_run sim cmd (nat n_iter) s)
     else if pc = Token_IF \<and> is_if_num need_next \<and> is_direction cmd then
       (0, 0, n_iter, if_run sim cmd n_iter s)
     else (need_next, pc, n_iter, s))"

text \<open>The token loop of \<^verbatim>\<open>process_commands\<close>. The first argument bounds the depth of
  nested calls, that is the height of the call stack; \<open>None\<close> says that the bound
  was not enough.\<close>

fun process_loop :: "nat \<Rightarrow> Simulator \<Rightarrow> int list \<Rightarrow> int list \<Rightarrow> int list
    \<Rightarrow> int \<times> int \<times> int \<times> ExecState \<Rightarrow> ExecState option" where
  "process_loop depth sim f1 f2 [] (need_next, pc, n_iter, s) = Some s"
| "process_loop depth sim f1 f2 (cmd # rest) (need_next, pc, n_iter, s) =
     (if cmd = Token_END then Some s
      else if cmd = Token_EMPTY then
        process_loop depth sim f1 f2 rest (need_next, pc, n_iter, s)
      else if cmd = FUNC_F1 \<and> f1 \<noteq> [] then
        (case depth of
           0 \<Rightarrow> None
         | Suc d \<Rightarrow>
             (case process_loop d sim f1 f2 f1 (0, 0, 0, s) of
                None \<Rightarrow> None
              | Some s' \<Rightarrow> process_loop depth sim f1 f2 rest (need_next, pc, n_iter, s')))
      else if cmd = FUNC_F2 \<and> f2 \<noteq> [] then
        (case depth of
           0 \<Rightarrow> None
         | Suc d \<Rightarrow>
             (case process_loop d sim f1 f2 f2 (0, 0, 0, s) of
                None \<Rightarrow> None
              | Some s' \<Rightarrow> process_loop depth sim f1 f2 rest (need_next, pc, n_iter, s')))
      else process_loop depth sim f1 f2 rest
             (state_machine sim cmd (need_next, pc, n_iter, s)))"

definition process_commands :: "nat \<Rightarrow> Simulator \<Rightarrow> int list \<Rightarrow> int list \<Rightarrow> int list
    \<Rightarrow> ExecState \<Rightarrow> ExecState option" where
  "process_commands depth sim commands f1 f2 s =
     process_loop depth sim f1 f2 commands (0, 0, 0, s)"

definition get_mouse_actions :: "nat \<Rightarrow> Simulator \<Rightarrow> int list \<Rightarrow> int list \<Rightarrow> int list
    \<Rightarrow> GameState \<Rightarrow> ActionResult option" where
  "get_mouse_actions depth sim command f1 f2 sim_state0 =
     map_option ActionResult.truncate
       (process_commands depth sim command f1 f2
          \<lparr> actions = [], wall_collisions = {}, sim_state = sim_state0, action_idx = 0 \<rparr>)"

section \<open>Entity AI\<close>

definition passable :: "GameState \<Rightarrow> Position \<Rightarrow> bool" where
  "passable st next \<longleftrightarrow> is_valid next \<and> wall st (x next) (y next) = 0"







section \<open>Pre-calculated entity actions\<close>

text \<open>The probe at a junction in the pre-calculation: up to 100 draws, a draw equal to
  the reverse of the current direction is skipped. \<open>None\<close> is \<^verbatim>\<open>found == false\<close>.\<close>

fun junction_probe :: "nat \<Rightarrow> GameState \<Rightarrow> Position \<Rightarrow> int \<Rightarrow> rng \<Rightarrow> (Position \<times> int) option \<times> rng" where
  "junction_probe 0 st p d g = (None, g)"
| "junction_probe (Suc n) st p d g =
     (let (new_dir, g') = uniform_int 0 (Direction_COUNT - 1) g in
      if new_dir = OPPOSITE d then junction_probe n st p d g'
      else (let next = move p new_dir in
            if passable st next then (Some (next, new_dir), g')
            else junction_probe n st p d g'))"

fun blocked_probe :: "nat \<Rightarrow> GameState \<Rightarrow> Position \<Rightarrow> rng \<Rightarrow> (Position \<times> int) option \<times> rng" where
  "blocked_probe 0 st p g = (None, g)"
| "blocked_probe (Suc n) st p g =
     (let (new_dir, g') = uniform_int 0 (Direction_COUNT - 1) g;
          next = move p new_dir
      in if passable st next then (Some (next, new_dir), g')
         else blocked_probe n st p g')"

definition fallback_action :: "int \<Rightarrow> int" where
  "fallback_action d = (if d \<ge> 0 \<and> d < Direction_COUNT then d else 0)"

text \<open>One planning step for one virtual entity (the body of the inner loop of
  \<^verbatim>\<open>pre_calculate_cat_actions\<close>, and of \<^verbatim>\<open>pre_calculate_crzbc_actions\<close> after its two
  guards): the new virtual position and direction, the action appended, the
  generator.\<close>

definition virtual_step :: "Simulator \<Rightarrow> GameState \<Rightarrow> Position \<times> int \<Rightarrow> rng
    \<Rightarrow> (Position \<times> int) \<times> int \<times> rng" where
  "virtual_step sim st = (\<lambda>(p, d) g.
     if junc st (x p) (y p) \<noteq> 0 then
       (case junction_probe MAX_RANDOM_TRIES st p d g of
          (Some (next, new_dir), g') \<Rightarrow> ((next, new_dir), new_dir, g')
        | (None, g') \<Rightarrow> ((p, d), fallback_action d, g'))
     else if movable sim p d then ((move_pos p d, d), d, g)
     else
       (case blocked_probe MAX_RANDOM_TRIES st p g of
          (Some (next, new_dir), g') \<Rightarrow> ((next, new_dir), new_dir, g')
        | (None, g') \<Rightarrow> ((p, d), fallback_action d, g')))"

text \<open>The planning state: the virtual positions and directions, the action lists, the
  generator.\<close>

type_synonym plan = "(Position \<times> int) list \<times> int list list \<times> rng"

definition plan_entity :: "Simulator \<Rightarrow> GameState \<Rightarrow> nat \<Rightarrow> plan \<Rightarrow> plan" where
  "plan_entity sim st i = (\<lambda>(virt, acts, g).
     (let (v', a, g') = virtual_step sim st (virt ! i) g
      in (virt[i := v'], acts[i := acts ! i @ [a]], g')))"

definition cat_plan_step :: "Simulator \<Rightarrow> GameState \<Rightarrow> plan \<Rightarrow> plan" where
  "cat_plan_step sim st pl = foldl (\<lambda>pl i. plan_entity sim st i pl) pl [0..<NUM_CATS]"

definition pre_calculate_cat_actions :: "Simulator \<Rightarrow> int list \<Rightarrow> GameState \<Rightarrow> rng
    \<Rightarrow> int list list \<times> rng" where
  "pre_calculate_cat_actions sim mouse_actions st g =
     (let virt = map (\<lambda>i. (pos (cats st ! i), direction (cats st ! i))) [0..<NUM_CATS];
          n_steps = length mouse_actions;
          (virt', cat_actions, g') =
             ((cat_plan_step sim st) ^^ n_steps) (virt, replicate NUM_CATS [], g)
      in (cat_actions, g'))"

definition crzbc_plan_step :: "Simulator \<Rightarrow> GameState \<Rightarrow> plan \<Rightarrow> plan" where
  "crzbc_plan_step sim st pl =
     foldl (\<lambda>pl i.
        if \<not> active (crzbc st ! i) then pl
        else if \<not> is_valid (fst (fst pl ! i)) then pl
        else plan_entity sim st i pl) pl [0..<NUM_CRZBC]"

definition pre_calculate_crzbc_actions :: "Simulator \<Rightarrow> int \<Rightarrow> GameState \<Rightarrow> rng
    \<Rightarrow> int list list \<times> rng" where
  "pre_calculate_crzbc_actions sim n_moves st g =
     (let virt = map (\<lambda>i. (pos (crzbc st ! i), direction (crzbc st ! i))) [0..<NUM_CRZBC];
          (virt', crzbc_actions, g') =
             ((crzbc_plan_step sim st) ^^ nat n_moves) (virt, replicate NUM_CRZBC [], g)
      in (crzbc_actions, g'))"

section \<open>Simulation\<close>

definition check_crossing :: "Position \<Rightarrow> Position \<Rightarrow> Position \<Rightarrow> Position \<Rightarrow> bool" where
  "check_crossing p1 p1_last p2 p2_last \<longleftrightarrow> p1 = p2_last \<and> p2 = p1_last"

fun command_length :: "int list \<Rightarrow> int" where
  "command_length [] = 0"
| "command_length (token # rest) = (if token = Token_END then 1 else 1 + command_length rest)"

text \<open>The locals of \<^verbatim>\<open>simulate_program\<close> that the tick loop updates. The score is a C++
  \<^verbatim>\<open>int\<close>; its overflow is undefined in the source and not modelled.\<close>

record SimVars =
  v_state :: GameState
  virtual_score :: int
  virtual_life :: int

text \<open>Steps 3 and 4 of a tick: pursuer \<open>i\<close> takes its planned action unless the target
  cell is blocked or holds pursuer \<open>k\<close>.\<close>

definition cat_tick :: "Simulator \<Rightarrow> nat \<Rightarrow> nat \<Rightarrow> int \<Rightarrow> GameState \<Rightarrow> GameState" where
  "cat_tick sim i k a st =
     (if movable sim (pos (cats st ! i)) a then
        (let new_pos = move_pos (pos (cats st ! i)) a in
         if new_pos \<noteq> pos (cats st ! k)
         then st \<lparr> cats := (cats st)[i := (cats st ! i) \<lparr> last_pos := pos (cats st ! i), pos := new_pos \<rparr>] \<rparr>
         else st)
      else st)"

text \<open>Step 5 of a tick for roaming item \<open>j\<close>.\<close>

definition crzbc_tick :: "Simulator \<Rightarrow> int list list \<Rightarrow> nat \<Rightarrow> nat \<Rightarrow> GameState \<Rightarrow> GameState" where
  "crzbc_tick sim crzbc_actions itr j st =
     (if \<not> active (crzbc st ! j) then st
      else if itr < length (crzbc_actions ! j) then
        (if movable sim (pos (crzbc st ! j)) (crzbc_actions ! j ! itr) then
           (let new_pos = move_pos (pos (crzbc st ! j)) (crzbc_actions ! j ! itr);
                collision =
                  (list_ex (\<lambda>c. new_pos = pos (cats st ! c)) [0..<NUM_CATS] \<or>
                   list_ex (\<lambda>k. k \<noteq> j \<and> active (crzbc st ! k) \<and> new_pos = pos (crzbc st ! k))
                     [0..<NUM_CRZBC])
            in if \<not> collision
               then st \<lparr> crzbc := (crzbc st)[j := (crzbc st ! j) \<lparr> pos := new_pos \<rparr>] \<rparr>
               else st)
         else st)
      else st)"

text \<open>Step 6: the collision check over the pursuers, with the locals score, life and
  \<^verbatim>\<open>catched\<close>.\<close>

fun cat_collisions :: "Position \<Rightarrow> Position \<Rightarrow> Entity list \<Rightarrow> int \<times> int \<times> bool \<Rightarrow> int \<times> int \<times> bool" where
  "cat_collisions m m_last [] acc = acc"
| "cat_collisions m m_last (c # cs) (vscore, vlife, caught) =
     (if \<not> active c then cat_collisions m m_last cs (vscore, vlife, caught)
      else if m = pos c \<or> check_crossing m m_last (pos c) (last_pos c)
      then cat_collisions m m_last cs (vscore + CAT_COLLISION, vlife - 1, True)
      else cat_collisions m m_last cs (vscore, vlife, caught))"

text \<open>Steps 7 and 8: collecting the bonus items under the mouse.\<close>

fun collect_bc :: "Position \<Rightarrow> Entity list \<Rightarrow> int \<Rightarrow> Entity list \<times> int" where
  "collect_bc m [] vscore = ([], vscore)"
| "collect_bc m (bc # rest) vscore =
     (if \<not> active bc then (let (rest', v') = collect_bc m rest vscore in (bc # rest', v'))
      else if m = pos bc
      then (let (rest', v') = collect_bc m rest (vscore + BIG_CHEESE)
            in (bc \<lparr> active := False \<rparr> # rest', v'))
      else (let (rest', v') = collect_bc m rest vscore in (bc # rest', v')))"

text \<open>One iteration of the tick loop. The flag returned says that the loop breaks.\<close>

definition tick :: "Simulator \<Rightarrow> ActionResult \<Rightarrow> int list list \<Rightarrow> int list list \<Rightarrow> int
    \<Rightarrow> nat \<Rightarrow> int \<Rightarrow> SimVars \<Rightarrow> SimVars \<times> bool" where
  "tick sim action_result cat_actions crzbc_actions cmd_length itr action v =
     (let score1 = (if int itr \<in> wall_collisions action_result
                    then virtual_score v + WALL_COLLISION else virtual_score v);
          st1 = (v_state v) \<lparr> mouse_last := mouse (v_state v) \<rparr>;
          st2 = (if movable sim (mouse st1) action
                 then st1 \<lparr> mouse := move_pos (mouse st1) action, step := to_int16 (step st1 + 1) \<rparr>
                 else st1);
          st3 = (if itr < length (cat_actions ! 1)
                 then cat_tick sim 1 0 (cat_actions ! 1 ! itr) st2 else st2);
          st4 = (if int itr < cmd_length \<and> itr < length (cat_actions ! 0)
                 then cat_tick sim 0 1 (cat_actions ! 0 ! itr) st3 else st3);
          st5 = foldl (\<lambda>st j. crzbc_tick sim crzbc_actions itr j st) st4 [0..<NUM_CRZBC];
          (score6, life6, caught) =
             cat_collisions (mouse st5) (mouse_last st5) (cats st5) (score1, virtual_life v, False);
          (movbc7, score7) = collect_bc (mouse st5) (movbc st5) score6;
          (crzbc8, score8) = collect_bc (mouse st5) (crzbc st5) score7;
          st8 = st5 \<lparr> movbc := movbc7, crzbc := crzbc8 \<rparr>;
          eat = (sc st8 (x (mouse st8)) (y (mouse st8)) \<noteq> 0);
          st9 = (if eat then st8 \<lparr> sc := grid_set (sc st8) (x (mouse st8)) (y (mouse st8)) 0 \<rparr> else st8);
          score9 = (if eat then score8 + SMALL_CHEESE else score8)
      in if life6 \<le> 0 then
           (\<lparr> v_state = st9, virtual_score = score9, virtual_life = life6 \<rparr>, True)
         else if count_remaining_cheese st9 = 0 then
           (\<lparr> v_state = st9 \<lparr> win_sign := True \<rparr>,
              virtual_score = score9 + (run st9 * 10 + step st9), virtual_life = life6 \<rparr>, True)
         else if step st9 \<ge> step_limit st9 then
           (\<lparr> v_state = st9, virtual_score = score9, virtual_life = life6 \<rparr>, True)
         else (\<lparr> v_state = st9, virtual_score = score9, virtual_life = life6 \<rparr>, caught))"

text \<open>The tick loop over \<^verbatim>\<open>action_result.actions\<close> from index \<open>itr\<close> on.\<close>

fun tick_loop :: "Simulator \<Rightarrow> ActionResult \<Rightarrow> int list list \<Rightarrow> int list list \<Rightarrow> int
    \<Rightarrow> nat \<Rightarrow> int list \<Rightarrow> SimVars \<Rightarrow> SimVars" where
  "tick_loop sim action_result cat_actions crzbc_actions cmd_length itr [] v = v"
| "tick_loop sim action_result cat_actions crzbc_actions cmd_length itr (action # rest) v =
     (let (v', stop) = tick sim action_result cat_actions crzbc_actions cmd_length itr action v
      in if stop then v'
         else tick_loop sim action_result cat_actions crzbc_actions cmd_length (Suc itr) rest v')"

text \<open>The win check after the loop.\<close>

definition final_win_check :: "SimVars \<Rightarrow> SimVars" where
  "final_win_check v =
     (if \<not> win_sign (v_state v) \<and> count_remaining_cheese (v_state v) = 0
      then v \<lparr> v_state := (v_state v) \<lparr> win_sign := True \<rparr>,
               virtual_score := virtual_score v + (run (v_state v) * 10 + step (v_state v)) \<rparr>
      else v)"

text \<open>\<^verbatim>\<open>simulate_program\<close>. The first argument bounds the call depth of the execution
  pass; \<open>None\<close> says that the execution pass did not return within it. The result is
  the score before its conversion to \<^verbatim>\<open>float\<close>, and the simulator object after the
  call.\<close>

definition simulate_program :: "nat \<Rightarrow> Simulator \<Rightarrow> int list \<Rightarrow> (int \<times> Simulator) option" where
  "simulate_program depth sim program =
     (let parsed = parse_program sim program in
      case get_mouse_actions depth sim (main_cmd parsed) (func1 parsed) (func2 parsed) (m_state sim) of
        None \<Rightarrow> None
      | Some action_result \<Rightarrow>
          (let sim_state0 = m_state sim;
               cmd_length = command_length program;
               (cat_actions, g1) =
                  pre_calculate_cat_actions sim (actions action_result) sim_state0 (m_rng sim);
               (crzbc_actions, g2) = pre_calculate_crzbc_actions sim cmd_length sim_state0 g1;
               v = tick_loop sim action_result cat_actions crzbc_actions cmd_length 0
                     (actions action_result)
                     \<lparr> v_state = sim_state0, virtual_score = score (m_state sim),
                        virtual_life = life (m_state sim) \<rparr>;
               v' = final_win_check v
           in Some (virtual_score v', sim \<lparr> m_rng := g2 \<rparr>)))"

definition simulate_program_and_apply :: "nat \<Rightarrow> Simulator \<Rightarrow> int list \<Rightarrow> (int \<times> Simulator) option" where
  "simulate_program_and_apply depth sim program =
     (case simulate_program depth sim program of
        None \<Rightarrow> None
      | Some (score', sim') \<Rightarrow> Some (score', sim'))"

section \<open>The state snapshot (bindings.cpp)\<close>

text \<open>A Python dictionary with the keys that \<^verbatim>\<open>dict_to_state\<close> reads; \<open>None\<close> is a
  missing key. The values are the C++ values that the pybind11 casts produce
  (\<^verbatim>\<open>int\<close>, \<^verbatim>\<open>bool\<close>, vectors of \<^verbatim>\<open>int\<close>); a cast that fails is outside the model.\<close>

record StateDict =
  d_mouse :: "int list option"
  d_mouse_last_pos :: "int list option"
  d_cat :: "int list list option"
  d_cat_last_pos :: "int list list option"
  d_cat_direction :: "int list option"
  d_sc :: "int list list option"
  d_wall :: "int list list option"
  d_junc :: "int list list option"
  d_deadend :: "int list list option"
  d_movbc :: "int list list option"
  d_crzbc :: "int list list option"
  d_crzbc_direction :: "int list option"
  d_score :: "int option"
  d_life :: "int option"
  d_step :: "int option"
  d_step_limit :: "int option"
  d_run :: "int option"
  d_func_chance :: "int option"
  d_red_zone :: "int option"
  d_win_sign :: "bool option"
  d_lose_sign :: "bool option"
  d_catched :: "bool option"

text \<open>\<open>KeyError\<close> is the exception of \<^verbatim>\<open>state_dict["key"]\<close> on a missing key.
  \<open>OutOfRange\<close> stands for an index beyond the end of a vector, which is undefined
  behaviour in the source.\<close>

datatype error = KeyError string | OutOfRange

definition bind :: "error + 'a \<Rightarrow> ('a \<Rightarrow> error + 'b) \<Rightarrow> error + 'b" where
  "bind m f = (case m of Inl e \<Rightarrow> Inl e | Inr v \<Rightarrow> f v)"

definition required :: "string \<Rightarrow> 'a option \<Rightarrow> error + 'a" where
  "required key v = (case v of None \<Rightarrow> Inl (KeyError key) | Some a \<Rightarrow> Inr a)"

definition at :: "'a list \<Rightarrow> nat \<Rightarrow> error + 'a" where
  "at xs i = (if i < length xs then Inr (xs ! i) else Inl OutOfRange)"

definition read_position :: "int list \<Rightarrow> error + Position" where
  "read_position v = bind (at v 0) (\<lambda>a. bind (at v 1) (\<lambda>b. Inr \<lparr> x = to_int8 a, y = to_int8 b \<rparr>))"

text \<open>The loops \<^verbatim>\<open>for (i = 0; i < v.size() && i < N; i++)\<close> over a vector from the
  dictionary and an array of \<open>N\<close> entities.\<close>

fun read_entities :: "int list list \<Rightarrow> Entity list \<Rightarrow> error + Entity list" where
  "read_entities [] es = Inr es"
| "read_entities (v # vs) [] = Inr []"
| "read_entities (v # vs) (e # es) =
     bind (read_position v) (\<lambda>p.
     bind (read_entities vs es) (\<lambda>es'.
     Inr (e \<lparr> pos := p, last_pos := p, active := True \<rparr> # es')))"

fun read_last_pos :: "int list list \<Rightarrow> Entity list \<Rightarrow> error + Entity list" where
  "read_last_pos [] es = Inr es"
| "read_last_pos (v # vs) [] = Inr []"
| "read_last_pos (v # vs) (e # es) =
     bind (read_position v) (\<lambda>p.
     bind (read_last_pos vs es) (\<lambda>es'.
     Inr (e \<lparr> last_pos := p \<rparr> # es')))"

fun read_directions :: "int list \<Rightarrow> Entity list \<Rightarrow> Entity list" where
  "read_directions [] es = es"
| "read_directions (d # ds) [] = []"
| "read_directions (d # ds) (e # es) = e \<lparr> direction := to_int8 d \<rparr> # read_directions ds es"

text \<open>The double loop that copies an 11x11 vector of vectors into a map layer.\<close>

definition read_grid :: "int list list \<Rightarrow> error + GridMap" where
  "read_grid rows =
     (if length rows \<ge> 11 \<and> list_all (\<lambda>i. length (rows ! i) \<ge> 11) [0..<11]
      then Inr (\<lambda>i j. if 0 \<le> i \<and> i < MAP_SIZE \<and> 0 \<le> j \<and> j < MAP_SIZE
                       then to_int8 (rows ! nat i ! nat j) else 0)
      else Inl OutOfRange)"

definition read_mouse :: "StateDict \<Rightarrow> error + Position \<times> Position" where
  "read_mouse d =
     bind (required ''mouse'' (d_mouse d)) (\<lambda>m.
     bind (read_position m) (\<lambda>mouse_p.
     bind (case d_mouse_last_pos d of
             Some ml \<Rightarrow> read_position ml
           | None \<Rightarrow> Inr mouse_p) (\<lambda>mouse_last_p.
     Inr (mouse_p, mouse_last_p))))"

definition read_cats :: "StateDict \<Rightarrow> Entity list \<Rightarrow> error + Entity list" where
  "read_cats d cats0 =
     bind (required ''cat'' (d_cat d)) (\<lambda>cat.
     bind (read_entities cat cats0) (\<lambda>cats1.
     bind (case d_cat_last_pos d of
             Some cl \<Rightarrow> read_last_pos cl cats1
           | None \<Rightarrow> Inr cats1) (\<lambda>cats2.
     Inr (case d_cat_direction d of
            Some cd \<Rightarrow> read_directions cd cats2
          | None \<Rightarrow> cats2))))"

definition read_layers :: "StateDict \<Rightarrow> error + GridMap \<times> GridMap \<times> GridMap \<times> GridMap" where
  "read_layers d =
     bind (required ''sc'' (d_sc d)) (\<lambda>sc_v.
     bind (read_grid sc_v) (\<lambda>sc_g.
     bind (required ''wall'' (d_wall d)) (\<lambda>wall_v.
     bind (read_grid wall_v) (\<lambda>wall_g.
     bind (required ''junc'' (d_junc d)) (\<lambda>junc_v.
     bind (read_grid junc_v) (\<lambda>junc_g.
     bind (required ''deadend'' (d_deadend d)) (\<lambda>deadend_v.
     bind (read_grid deadend_v) (\<lambda>deadend_g.
     Inr (sc_g, wall_g, junc_g, deadend_g)))))))))"

definition read_movbc :: "StateDict \<Rightarrow> Entity list \<Rightarrow> error + Entity list" where
  "read_movbc d movbc0 =
     bind (required ''movbc'' (d_movbc d)) (\<lambda>movbc_v. read_entities movbc_v movbc0)"

definition read_crzbc :: "StateDict \<Rightarrow> Entity list \<Rightarrow> error + Entity list" where
  "read_crzbc d crzbc0 =
     bind (required ''crzbc'' (d_crzbc d)) (\<lambda>crzbc_v.
     bind (read_entities crzbc_v crzbc0) (\<lambda>crzbc1.
     Inr (case d_crzbc_direction d of
            Some cd \<Rightarrow> read_directions cd crzbc1
          | None \<Rightarrow> crzbc1)))"

definition read_scalars :: "StateDict \<Rightarrow> error + int \<times> int \<times> int" where
  "read_scalars d =
     bind (required ''score'' (d_score d)) (\<lambda>score_v.
     bind (required ''life'' (d_life d)) (\<lambda>life_v.
     bind (required ''step'' (d_step d)) (\<lambda>step_v.
     Inr (score_v, life_v, step_v))))"

text \<open>\<^verbatim>\<open>dict_to_state\<close>: the keys are read in the order of the source, starting from a
  default-constructed \<^verbatim>\<open>GameState\<close>.\<close>

definition dict_to_state :: "StateDict \<Rightarrow> error + GameState" where
  "dict_to_state d =
     bind (read_mouse d) (\<lambda>(mouse_p, mouse_last_p).
     bind (read_cats d (cats GameState_reset)) (\<lambda>cats'.
     bind (read_layers d) (\<lambda>(sc_g, wall_g, junc_g, deadend_g).
     bind (read_movbc d (movbc GameState_reset)) (\<lambda>movbc'.
     bind (read_crzbc d (crzbc GameState_reset)) (\<lambda>crzbc'.
     bind (read_scalars d) (\<lambda>(score_v, life_v, step_v).
     Inr (GameState_reset \<lparr>
       wall := wall_g, sc := sc_g, junc := junc_g, deadend := deadend_g,
       mouse := mouse_p, mouse_last := mouse_last_p,
       cats := cats', movbc := movbc', crzbc := crzbc',
       score := to_int32 score_v,
       life := to_int16 life_v,
       step := to_int16 step_v,
       step_limit := to_int16 (case d_step_limit d of Some v \<Rightarrow> v | None \<Rightarrow> DEFAULT_STEP_LIMIT),
       run := to_int16 (case d_run d of Some v \<Rightarrow> v | None \<Rightarrow> 0),
       func_chance := to_int8 (case d_func_chance d of Some v \<Rightarrow> v | None \<Rightarrow> DEFAULT_FUNC_CHANCE),
       red_zone := to_int8 (case d_red_zone d of Some v \<Rightarrow> v | None \<Rightarrow> DEFAULT_RED_ZONE),
       win_sign := (case d_win_sign d of Some b \<Rightarrow> b | None \<Rightarrow> False),
       lose_sign := (case d_lose_sign d of Some b \<Rightarrow> b | None \<Rightarrow> False),
       catched := (case d_catched d of Some b \<Rightarrow> b | None \<Rightarrow> False) \<rparr>)))))))"

definition grid_rows :: "GridMap \<Rightarrow> int list list" where
  "grid_rows g = map (\<lambda>i. map (\<lambda>j. g (int i) (int j)) [0..<11]) [0..<11]"

definition position_vec :: "Position \<Rightarrow> int list" where
  "position_vec p = [x p, y p]"

definition state_to_dict :: "GameState \<Rightarrow> StateDict" where
  "state_to_dict state = \<lparr>
     d_mouse = Some (position_vec (mouse state)),
     d_mouse_last_pos = Some (position_vec (mouse_last state)),
     d_cat = Some (map (\<lambda>c. position_vec (pos c)) (cats state)),
     d_cat_last_pos = Some (map (\<lambda>c. position_vec (last_pos c)) (cats state)),
     d_cat_direction = Some (map direction (cats state)),
     d_sc = Some (grid_rows (sc state)),
     d_wall = Some (grid_rows (wall state)),
     d_junc = Some (grid_rows (junc state)),
     d_deadend = Some (grid_rows (deadend state)),
     d_movbc = Some (map (\<lambda>bc. position_vec (pos bc)) (movbc state)),
     d_crzbc = Some (map (\<lambda>bc. position_vec (pos bc)) (crzbc state)),
     d_crzbc_direction = Some (map direction (crzbc state)),
     d_score = Some (score state),
     d_life = Some (life state),
     d_step = Some (step state),
     d_step_limit = Some (step_limit state),
     d_run = Some (run state),
     d_func_chance = Some (func_chance state),
     d_red_zone = Some (red_zone state),
     d_win_sign = Some (win_sign state),
     d_lose_sign = Some (lose_sign state),
     d_catched = Some (catched state) \<rparr>"

section \<open>Fixtures\<close>

text \<open>A simulator on the fixed level with an empty function library, and a cache that
  was never initialised.\<close>

definition level3_simulator :: Simulator where
  "level3_simulator = \<lparr> m_state = init_level3, m_func_lib = (\<lambda>i. []), m_rng = (\<lambda>i. 0), m_level = 3 \<rparr>"

definition empty_cache :: GlobalDistanceCache where
  "empty_cache = \<lparr> cache = [], initialized = False \<rparr>"

text \<open>A function library with three entries: 113 moves up and calls slot 2, 114 moves
  right, 115 calls slot 1.\<close>

definition demo_library :: "int \<Rightarrow> int list" where
  "demo_library i =
     (if i = 113 then [0, FUNC_F2] else if i = 114 then [3] else if i = 115 then [FUNC_F1] else [])"

definition demo_simulator :: Simulator where
  "demo_simulator = level3_simulator \<lparr> m_func_lib := demo_library \<rparr>"

text \<open>The reference parameters at the start of \<^verbatim>\<open>get_mouse_actions\<close>.\<close>

definition initial_exec :: "GameState \<Rightarrow> ExecState" where
  "initial_exec st = \<lparr> actions = [], wall_collisions = {}, sim_state = st, action_idx = 0 \<rparr>"

section \<open>Descriptions used by the properties\<close>

subsection \<open>The parsing pass as described\<close>







subsection \<open>Walks of the conditional run\<close>



subsection \<open>Calls between function bodies\<close>

text \<open>A body calls a slot when the slot's call token stands before its end sentinel.\<close>

definition calls :: "int list \<Rightarrow> int \<Rightarrow> bool" where
  "calls body t \<longleftrightarrow> t \<in> set (takeWhile (\<lambda>c. c \<noteq> Token_END) body)"

definition acyclic_bodies :: "int list \<Rightarrow> int list \<Rightarrow> bool" where
  "acyclic_bodies f1 f2 \<longleftrightarrow>
     \<not> calls f1 FUNC_F1 \<and> \<not> calls f2 FUNC_F2 \<and> \<not> (calls f1 FUNC_F2 \<and> calls f2 FUNC_F1)"

subsection \<open>Activity of the entities\<close>

definition all_active :: "GameState \<Rightarrow> bool" where
  "all_active st \<longleftrightarrow>
     list_all active (cats st) \<and> list_all active (movbc st) \<and> list_all active (crzbc st)"

text \<open>The level after the first stationary bonus item has been collected.\<close>

definition collected_level3 :: GameState where
  "collected_level3 =
     init_level3 \<lparr> movbc := [(mk_entity 1 5 0) \<lparr> active := False \<rparr>, mk_entity 7 5 0] \<rparr>"

subsection \<open>A state one step from clearing the board\<close>

text \<open>One collectible left at (0, 1) with a pursuer on it, the mouse next to it at
  (0, 0) with one life, the other pursuer walled in at (10, 10); the bonus items
  have been collected. The only cell the first pursuer could move to is the one the
  mouse stands on.\<close>

definition last_cheese_state :: GameState where
  "last_cheese_state = GameState_reset \<lparr>
     wall := (\<lambda>i j. if (i = 0 \<and> j = 0) \<or> (i = 0 \<and> j = 1) \<or> (i = 10 \<and> j = 10) then 0 else 1),
     sc := (\<lambda>i j. if i = 0 \<and> j = 1 then 1 else 0),
     mouse := \<lparr> x = 0, y = 0 \<rparr>, mouse_last := \<lparr> x = 0, y = 0 \<rparr>,
     cats := [mk_entity 0 1 0, mk_entity 10 10 0],
     movbc := [(mk_entity 10 10 0) \<lparr> active := False \<rparr>, (mk_entity 10 10 0) \<lparr> active := False \<rparr>],
     crzbc := [(mk_entity 10 10 0) \<lparr> active := False \<rparr>, (mk_entity 10 10 0) \<lparr> active := False \<rparr>],
     life := 1 \<rparr>"

definition last_cheese_simulator :: Simulator where
  "last_cheese_simulator =
     \<lparr> m_state = last_cheese_state, m_func_lib = (\<lambda>i. []), m_rng = (\<lambda>i. 0), m_level = 3 \<rparr>"

subsection \<open>Pursuers on dead ends\<close>



subsection \<open>Lengths of the planned action lists\<close>


section \<open>Distance maps: the cache against the direct computation\<close>

lemma cache_get:
  assumes "is_valid target"
  shows "GlobalDistanceCache_get (GlobalDistanceCache_initialize w c) (x target) (y target) =
         compute_distance_map w (x target) (y target)"
proof -
  from assms have r: "0 \<le> x target" "x target < 11" "0 \<le> y target" "y target < 11"
    by (simp_all add: is_valid_def MAP_SIZE_def)
  then have lt: "nat (x target * 11 + y target) < 121" by auto
  have d: "(x target * 11 + y target) div 11 = x target" using r by auto
  have m: "(x target * 11 + y target) mod 11 = y target" using r by auto
  show ?thesis
    using lt r d m
    by (simp add: GlobalDistanceCache_get_def GlobalDistanceCache_initialize_def MAP_SIZE_def)
qed

lemma to_int8_valid: "is_valid p \<Longrightarrow> \<lparr> x = to_int8 (x p), y = to_int8 (y p) \<rparr> = p"
  by (auto simp: is_valid_def MAP_SIZE_def to_int8_def)

lemma gdc_expand_keeps:
  "dm i j \<noteq> 0 \<Longrightarrow> fst (gdc_expand cur d dirs dm q) i j = dm i j"
proof (induction dirs arbitrary: dm q)
  case Nil
  then show ?case by simp
next
  case (Cons dir dirs)
  let ?n = "move cur dir"
  show ?case
  proof (cases "is_valid ?n \<and> dm (x ?n) (y ?n) = 0")
    case True
    let ?dm1 = "grid_set dm (x ?n) (y ?n) (to_int16 (d + 1))"
    have ne: "\<not> (i = x ?n \<and> j = y ?n)" using True Cons.prems by auto
    then have same: "?dm1 i j = dm i j" by (auto simp: grid_set_def)
    with Cons.prems have "?dm1 i j \<noteq> 0" by simp
    from Cons.IH[of ?dm1 "q @ [?n]"] this same True show ?thesis by (simp add: Let_def)
  next
    case False
    with Cons.IH[of dm q] Cons.prems show ?thesis by (auto simp: Let_def)
  qed
qed

lemma gdc_loop_keeps: "dm i j \<noteq> 0 \<Longrightarrow> gdc_loop dm q i j = dm i j"
proof (induction dm q rule: gdc_loop.induct)
  case (1 dist_map)
  show ?case by (simp add: gdc_loop.simps)
next
  case (2 dist_map cur queue)
  obtain dm' q' where e: "gdc_expand cur (dist_map (x cur) (y cur)) directions dist_map queue = (dm', q')"
    by fastforce
  have k: "dm' i j = dist_map i j"
    using gdc_expand_keeps[of dist_map i j cur "dist_map (x cur) (y cur)" directions queue] 2(2) e
    by simp
  with 2(2) have "dm' i j \<noteq> 0" by simp
  from 2(1)[OF refl e[symmetric] refl this] k e show ?case by (simp add: gdc_loop.simps)
qed

lemma compute_source: "compute_distance_map w r c r c = 1"
proof -
  have "grid_set (init_dist_map w) r c 1 r c \<noteq> 0" by (simp add: grid_set_def)
  from gdc_loop_keeps[of "grid_set (init_dist_map w) r c 1" r c, OF this] show ?thesis
    by (simp add: compute_distance_map_def grid_set_def)
qed

lemma compute_wall:
  assumes "w i j \<noteq> 0" "\<not> (i = r \<and> j = c)"
  shows "compute_distance_map w r c i j = -1"
proof -
  have v: "grid_set (init_dist_map w) r c 1 i j = -1"
    using assms by (auto simp: grid_set_def init_dist_map_def)
  then have "grid_set (init_dist_map w) r c 1 i j \<noteq> 0" by simp
  from gdc_loop_keeps[of "grid_set (init_dist_map w) r c 1" i j, OF this] v show ?thesis
    by (simp add: compute_distance_map_def)
qed

text \<open>Claim C1. For a wall layer \<open>w\<close> and a target cell on the board, the map that
  \<^verbatim>\<open>create_distance_map\<close> returns from the global cache, once the cache has been
  initialised with \<open>w\<close> and is enabled, is the map that the uncached path computes on
  a simulator whose state has the wall layer \<open>w\<close>.\<close>

theorem cached_equals_uncached:
  assumes "is_valid target" and "wall (m_state sim) = w"
  shows "create_distance_map \<lparr> global_cache_enabled = True,
            cache_instance = GlobalDistanceCache_initialize w c \<rparr> sim target =
         create_distance_map \<lparr> global_cache_enabled = False, cache_instance = c' \<rparr> sim target"
  using cache_get[OF assms(1), of w c] assms(2) to_int8_valid[OF assms(1)]
  by (simp add: create_distance_map_def compute_distance_map_def sim_loop_eq
        GlobalDistanceCache_initialize_def)

theorem cached_equals_uncached_witness:
  "is_valid \<lparr> x = 10, y = 10 \<rparr> \<and>
   create_distance_map \<lparr> global_cache_enabled = True,
       cache_instance = GlobalDistanceCache_initialize (wall init_level3) empty_cache \<rparr>
     level3_simulator \<lparr> x = 10, y = 10 \<rparr> =
   create_distance_map \<lparr> global_cache_enabled = False, cache_instance = empty_cache \<rparr>
     level3_simulator \<lparr> x = 10, y = 10 \<rparr>"
proof -
  have v: "is_valid \<lparr> x = 10, y = 10 \<rparr>" by (simp add: is_valid_def MAP_SIZE_def)
  have w: "wall (m_state level3_simulator) = wall init_level3"
    by (simp add: level3_simulator_def)
  show ?thesis using v cached_equals_uncached[OF v w] by blast
qed

text \<open>Claim C8, as stated, fails where the source cell is itself a wall cell: the
  cache builds a map for each of the 121 cells, walls included, and the seed 1
  overwrites the sentinel. On the fixed level, cell (0, 4) is a wall and its own map
  holds 1 there.\<close>

theorem wall_source_counterexample:
  "wall init_level3 0 4 = 1 \<and>
   GlobalDistanceCache_get (GlobalDistanceCache_initialize (wall init_level3) empty_cache) 0 4 0 4 \<noteq> -1"
proof -
  have v: "is_valid \<lparr> x = 0, y = 4 \<rparr>" by (simp add: is_valid_def MAP_SIZE_def)
  have "wall init_level3 0 4 = 1"
    by (simp add: init_level3_def grid_of_def WALL_DATA_def)
  then show ?thesis using cache_get[OF v, of "wall init_level3" empty_cache]
    by (simp add: compute_source)
qed

text \<open>Claim C8, amended. In the map of a source cell on the board, taken from the
  cache or computed on demand, the source cell holds 1 and every wall cell other
  than the source holds -1.\<close>

theorem source_one_other_walls_minus_one:
  assumes "is_valid target" and "wall (m_state sim) = w"
  shows "(let m = GlobalDistanceCache_get (GlobalDistanceCache_initialize w c) (x target) (y target)
          in m (x target) (y target) = 1 \<and>
             (\<forall>i j. w i j \<noteq> 0 \<and> \<not> (i = x target \<and> j = y target) \<longrightarrow> m i j = -1)) \<and>
         (let m = create_distance_map \<lparr> global_cache_enabled = False, cache_instance = c' \<rparr> sim target
          in m (x target) (y target) = 1 \<and>
             (\<forall>i j. w i j \<noteq> 0 \<and> \<not> (i = x target \<and> j = y target) \<longrightarrow> m i j = -1))"
proof -
  have u: "create_distance_map \<lparr> global_cache_enabled = False, cache_instance = c' \<rparr> sim target
           = compute_distance_map w (x target) (y target)"
    using assms(2) to_int8_valid[OF assms(1)]
    by (simp add: create_distance_map_def compute_distance_map_def sim_loop_eq)
  show ?thesis
    unfolding u cache_get[OF assms(1)] Let_def
    using compute_source compute_wall by blast
qed

theorem source_one_other_walls_minus_one_witness:
  "(let m = GlobalDistanceCache_get (GlobalDistanceCache_initialize (wall init_level3) empty_cache) 0 4
    in m 0 4 = 1 \<and> m 0 6 = -1) \<and>
   (let m = create_distance_map \<lparr> global_cache_enabled = False, cache_instance = empty_cache \<rparr>
              level3_simulator \<lparr> x = 0, y = 4 \<rparr>
    in m 0 4 = 1 \<and> m 0 6 = -1)"
proof -
  have v: "is_valid \<lparr> x = 0, y = 4 \<rparr>" by (simp add: is_valid_def MAP_SIZE_def)
  have w: "wall (m_state level3_simulator) = wall init_level3"
    by (simp add: level3_simulator_def)
  have w6: "wall init_level3 0 6 \<noteq> 0"
    by (simp add: init_level3_def grid_of_def WALL_DATA_def)
  show ?thesis
    using source_one_other_walls_minus_one[OF v w, of empty_cache empty_cache] w6
    by (simp add: Let_def)
qed

section \<open>Parsing against its description\<close>











section \<open>The execution pass\<close>



lemma Token_IF_not_special:
  "Token_IF \<noteq> Token_END \<and> Token_IF \<noteq> Token_EMPTY \<and> Token_IF \<noteq> FUNC_F1 \<and> Token_IF \<noteq> FUNC_F2 \<and>
   Token_IF \<noteq> Token_LOOP \<and> Token_IF \<noteq> 0 \<and> \<not> is_direction Token_IF"
  by (auto simp: is_direction_def token_defs)

lemma normal_IF:
  "process_loop depth sim f1 f2 (Token_IF # rest) (0, pc, n, s) =
   process_loop depth sim f1 f2 rest (Token_IF, pc, n, s)"
  using Token_IF_not_special by (simp add: state_machine_def)



lemma if_run_actions:
  "\<exists>k. actions (if_run sim d N s) = actions s @ replicate k d \<and>
       action_idx (if_run sim d N s) = action_idx s + int k"
proof (induction sim d N s rule: if_run.induct)
  case (1 sim cmd remaining s)
  let ?s' = "s \<lparr> sim_state := (sim_state s) \<lparr> mouse := move_pos (mouse (sim_state s)) cmd \<rparr>,
                  actions := actions s @ [cmd], action_idx := action_idx s + 1 \<rparr>"
  show ?case
  proof (cases "remaining > 0 \<and> is_direction cmd \<and> movable sim (mouse (sim_state s)) cmd")
    case False
    then have "if_run sim cmd remaining s = s" by (subst if_run.simps) auto
    then show ?thesis by (auto intro: exI[of _ 0])
  next
    case True
    let ?r = "if junc (sim_state ?s') (x (mouse (sim_state ?s'))) (y (mouse (sim_state ?s'))) \<noteq> 0
              then remaining - 1 else remaining"
    have e: "if_run sim cmd remaining s = if_run sim cmd ?r ?s'"
      using True by (subst if_run.simps) (simp add: Let_def)
    have "\<exists>k. actions (if_run sim cmd ?r ?s') = actions ?s' @ replicate k cmd \<and>
              action_idx (if_run sim cmd ?r ?s') = action_idx ?s' + int k"
      using 1[OF _ _ refl] True by (auto split: if_splits)
    then obtain k where
      "actions (if_run sim cmd ?r ?s') = actions ?s' @ replicate k cmd"
      "action_idx (if_run sim cmd ?r ?s') = action_idx ?s' + int k" by blast
    then have "actions (if_run sim cmd remaining s) = actions s @ replicate (Suc k) cmd \<and>
               action_idx (if_run sim cmd remaining s) = action_idx s + int (Suc k)"
      unfolding e by (simp add: replicate_app_Cons_same)
    then show ?thesis by blast
  qed
qed









text \<open>A state of the machine in which the state machine changes nothing, whatever the token.\<close>

lemma stuck_state_machine:
  assumes "\<not> is_if_num c" "c \<noteq> 0" "c \<noteq> Token_LOOP" "c \<noteq> Token_IF"
  shows "state_machine sim t (c, Token_IF, n, s) = (c, Token_IF, n, s)"
  using assms by (simp add: state_machine_def token_defs)

lemma stuck_process_loop:
  assumes "\<not> is_if_num c" "c \<noteq> 0" "c \<noteq> Token_LOOP" "c \<noteq> Token_IF"
  shows "process_loop depth sim f1 f2 rest (c, Token_IF, n, s) =
         process_loop depth sim f1 f2
           (filter (\<lambda>t. t = FUNC_F1 \<or> t = FUNC_F2) (takeWhile (\<lambda>t. t \<noteq> Token_END) rest))
           (c, Token_IF, n, s)"
proof (induction rest arbitrary: s)
  case Nil
  show ?case by simp
next
  case (Cons t rest)
  have ne: "FUNC_F1 \<noteq> Token_END" "FUNC_F2 \<noteq> Token_END" "FUNC_F1 \<noteq> Token_EMPTY"
    "FUNC_F2 \<noteq> Token_EMPTY" "FUNC_F1 \<noteq> FUNC_F2" "Token_EMPTY \<noteq> Token_END"
    by (simp_all add: token_defs)
  show ?case
    using Cons.IH ne stuck_state_machine[OF assms]
    by (auto split: nat.splits option.splits)
qed

lemma stuck_no_calls:
  assumes "\<not> is_if_num c" "c \<noteq> 0" "c \<noteq> Token_LOOP" "c \<noteq> Token_IF"
    and "\<forall>t\<in>set rest. \<not> (t = FUNC_F1 \<and> f1 \<noteq> []) \<and> \<not> (t = FUNC_F2 \<and> f2 \<noteq> [])"
  shows "process_loop depth sim f1 f2 rest (c, Token_IF, n, s) = Some s"
  using assms(5)
proof (induction rest)
  case Nil
  show ?case by simp
next
  case (Cons t rest)
  then show ?case using stuck_state_machine[OF assms(1-4)] by auto
qed

lemma await_if_count_invalid:
  "\<not> is_if_num c \<Longrightarrow> state_machine sim c (Token_IF, pc, n, s) = (c, Token_IF, n, s)"
  using Token_IF_not_special by (simp add: state_machine_def)

lemma process_loop_plain_token:
  assumes "c \<noteq> Token_END" "c \<noteq> Token_EMPTY"
    and "\<not> (c = FUNC_F1 \<and> f1 \<noteq> [])" "\<not> (c = FUNC_F2 \<and> f2 \<noteq> [])"
  shows "process_loop depth sim f1 f2 (c # rest) (nn, pc, n, s) =
         process_loop depth sim f1 f2 rest (state_machine sim c (nn, pc, n, s))"
  using assms by (simp only: process_loop.simps if_False simp_thms)

text \<open>Claim C5, as stated, fails: after the invalid count token 1 the direction and
  loop tokens that follow are not processed, while the same tokens alone produce
  three actions.\<close>

theorem tokens_after_invalid_count_counterexample:
  "get_mouse_actions 0 level3_simulator [Token_IF, 1, 3, Token_LOOP, 102, 0] [] [] init_level3
     = Some \<lparr> actions = [], wall_collisions = {} \<rparr> \<and>
   get_mouse_actions 0 level3_simulator [3, Token_LOOP, 102, 0] [] [] init_level3
     = Some \<lparr> actions = [3, 0, 0], wall_collisions = {0, 2} \<rparr>"
  by code_simp

text \<open>Claim C5, amended. A token \<open>c\<close> outside the count range 1 to 7 that reaches the
  state machine while a conditional count is awaited is taken as the pending count
  (\<open>need_next\<close> becomes \<open>c\<close>) and marks it invalid. Unless \<open>c\<close> is 0, the loop token
  or the conditional token, which put the machine into the normal state or one of
  the two awaiting states, the machine then ignores every later token of the same
  command sequence: the sequence behaves as its calls of the two function slots
  alone, and returns the state unchanged when it calls no non-empty function.\<close>

theorem invalid_count_disables_rest:
  assumes "\<not> is_if_num c" and "c \<noteq> Token_END" and "c \<noteq> Token_EMPTY"
    and "\<not> (c = FUNC_F1 \<and> f1 \<noteq> [])" and "\<not> (c = FUNC_F2 \<and> f2 \<noteq> [])"
  shows "process_loop depth sim f1 f2 (Token_IF # c # rest) (0, pc, n, s) =
           process_loop depth sim f1 f2 rest (c, Token_IF, n, s) \<and>
         (c \<noteq> 0 \<and> c \<noteq> Token_LOOP \<and> c \<noteq> Token_IF \<longrightarrow>
            process_loop depth sim f1 f2 rest (c, Token_IF, n, s) =
              process_loop depth sim f1 f2
                (filter (\<lambda>t. t = FUNC_F1 \<or> t = FUNC_F2) (takeWhile (\<lambda>t. t \<noteq> Token_END) rest))
                (c, Token_IF, n, s) \<and>
            ((\<forall>t\<in>set rest. \<not> (t = FUNC_F1 \<and> f1 \<noteq> []) \<and> \<not> (t = FUNC_F2 \<and> f2 \<noteq> [])) \<longrightarrow>
               process_loop depth sim f1 f2 (Token_IF # c # rest) (0, pc, n, s) = Some s))"
proof -
  have "process_loop depth sim f1 f2 (Token_IF # c # rest) (0, pc, n, s) =
        process_loop depth sim f1 f2 (c # rest) (Token_IF, pc, n, s)"
    by (rule normal_IF)
  also have "\<dots> = process_loop depth sim f1 f2 rest (state_machine sim c (Token_IF, pc, n, s))"
    by (rule process_loop_plain_token[OF assms(2-5)])
  also have "\<dots> = process_loop depth sim f1 f2 rest (c, Token_IF, n, s)"
    by (simp only: await_if_count_invalid[OF assms(1)])
  finally have step: "process_loop depth sim f1 f2 (Token_IF # c # rest) (0, pc, n, s) =
              process_loop depth sim f1 f2 rest (c, Token_IF, n, s)" .
  have rest: "process_loop depth sim f1 f2 rest (c, Token_IF, n, s) =
              process_loop depth sim f1 f2
                (filter (\<lambda>t. t = FUNC_F1 \<or> t = FUNC_F2) (takeWhile (\<lambda>t. t \<noteq> Token_END) rest))
                (c, Token_IF, n, s) \<and>
            ((\<forall>t\<in>set rest. \<not> (t = FUNC_F1 \<and> f1 \<noteq> []) \<and> \<not> (t = FUNC_F2 \<and> f2 \<noteq> [])) \<longrightarrow>
               process_loop depth sim f1 f2 (Token_IF # c # rest) (0, pc, n, s) = Some s)"
    if stuck: "c \<noteq> 0 \<and> c \<noteq> Token_LOOP \<and> c \<noteq> Token_IF"
  proof (intro conjI impI)
    from stuck have k: "c \<noteq> 0" "c \<noteq> Token_LOOP" "c \<noteq> Token_IF" by simp_all
    show "process_loop depth sim f1 f2 rest (c, Token_IF, n, s) =
           process_loop depth sim f1 f2
             (filter (\<lambda>t. t = FUNC_F1 \<or> t = FUNC_F2) (takeWhile (\<lambda>t. t \<noteq> Token_END) rest))
             (c, Token_IF, n, s)"
      by (rule stuck_process_loop[OF assms(1) k])
    assume "\<forall>t\<in>set rest. \<not> (t = FUNC_F1 \<and> f1 \<noteq> []) \<and> \<not> (t = FUNC_F2 \<and> f2 \<noteq> [])"
    from stuck_no_calls[OF assms(1) k this, of depth sim n s]
    show "process_loop depth sim f1 f2 (Token_IF # c # rest) (0, pc, n, s) = Some s"
      unfolding step .
  qed
  have "c \<noteq> 0 \<and> c \<noteq> Token_LOOP \<and> c \<noteq> Token_IF \<longrightarrow>
          process_loop depth sim f1 f2 rest (c, Token_IF, n, s) =
              process_loop depth sim f1 f2
                (filter (\<lambda>t. t = FUNC_F1 \<or> t = FUNC_F2) (takeWhile (\<lambda>t. t \<noteq> Token_END) rest))
                (c, Token_IF, n, s) \<and>
            ((\<forall>t\<in>set rest. \<not> (t = FUNC_F1 \<and> f1 \<noteq> []) \<and> \<not> (t = FUNC_F2 \<and> f2 \<noteq> [])) \<longrightarrow>
               process_loop depth sim f1 f2 (Token_IF # c # rest) (0, pc, n, s) = Some s)"
    by (rule impI) (rule rest)
  with step show ?thesis
    by (rule conjI)
qed

theorem invalid_count_disables_rest_witness:
  "\<not> is_if_num 1 \<and>
   process_loop 0 level3_simulator [] [] [Token_IF, 1, 3, Token_LOOP, 102, 0]
     (0, 0, 0, initial_exec init_level3) = Some (initial_exec init_level3)"
proof -
  have n: "\<not> is_if_num 1" by (simp add: is_if_num_def token_defs)
  have h: "1 \<noteq> Token_END" "1 \<noteq> Token_EMPTY" "\<not> (1 = FUNC_F1 \<and> [] \<noteq> ([]::int list))"
    "\<not> (1 = FUNC_F2 \<and> [] \<noteq> ([]::int list))" "1 \<noteq> (0::int) \<and> 1 \<noteq> Token_LOOP \<and> 1 \<noteq> Token_IF"
    by (simp_all add: token_defs)
  have r: "\<forall>t\<in>set [3, Token_LOOP, 102, 0].
             \<not> (t = FUNC_F1 \<and> [] \<noteq> ([]::int list)) \<and> \<not> (t = FUNC_F2 \<and> [] \<noteq> ([]::int list))"
    by simp
  note t = invalid_count_disables_rest[OF n h(1-4), of 0 level3_simulator "[3, Token_LOOP, 102, 0]" 0 0
      "initial_exec init_level3"]
  from t h(5) r have
    "process_loop 0 level3_simulator [] [] (Token_IF # 1 # [3, Token_LOOP, 102, 0])
       (0, 0, 0, initial_exec init_level3) = Some (initial_exec init_level3)"
    by blast
  with n show ?thesis by (intro conjI)
qed

section \<open>Termination of the execution pass\<close>

lemma self_call_diverges:
  "process_loop depth sim [FUNC_F1] f2 (FUNC_F1 # rest) (nn, pc, n, s) = None"
proof (induction depth arbitrary: rest nn pc n s)
  case 0
  show ?case by (simp add: token_defs)
next
  case (Suc d)
  have "process_loop d sim [FUNC_F1] f2 [FUNC_F1] (0, 0, 0, s) = None" by (rule Suc)
  then show ?case by (simp add: token_defs)
qed

text \<open>Claim C3, as stated, fails: a function body that calls its own slot makes the
  execution pass recurse without end. With library entry 115, whose body is the call
  token of slot 1, no call depth lets \<^verbatim>\<open>simulate_program\<close> return.\<close>

theorem self_call_counterexample:
  "\<not> (\<exists>depth r. simulate_program depth demo_simulator [115, Token_END] = Some r)"
proof -
  have p: "parse_program demo_simulator [115, Token_END] =
           \<lparr> main_cmd = [FUNC_F1], func1 = [FUNC_F1], func2 = [] \<rparr>"
    by (simp add: parse_program_def demo_simulator_def demo_library_def is_func_lib_def token_defs)
  have g: "get_mouse_actions depth demo_simulator [FUNC_F1] [FUNC_F1] [] st = None" for depth st
    unfolding get_mouse_actions_def process_commands_def self_call_diverges by simp
  have "simulate_program depth demo_simulator [115, Token_END] = None" for depth
    unfolding simulate_program_def p Let_def by (simp add: g)
  then show ?thesis by simp
qed

lemma calls_Cons:
  "calls (c # cs) t \<longleftrightarrow> c \<noteq> Token_END \<and> (c = t \<or> calls cs t)"
  by (auto simp: calls_def)

text \<open>If the bodies that a sequence calls return at depth \<open>d\<close> from every state, the
  sequence returns at depth \<open>d + 1\<close>.\<close>

lemma process_loop_returns:
  assumes "calls cmds FUNC_F1 \<Longrightarrow> (\<And>s. \<exists>r. process_loop d sim f1 f2 f1 (0, 0, 0, s) = Some r)"
    and "calls cmds FUNC_F2 \<Longrightarrow> (\<And>s. \<exists>r. process_loop d sim f1 f2 f2 (0, 0, 0, s) = Some r)"
  shows "\<exists>r. process_loop (Suc d) sim f1 f2 cmds (nn, pc, n, s) = Some r"
  using assms
proof (induction cmds arbitrary: nn pc n s)
  case Nil
  show ?case by simp
next
  case (Cons c cs)
  show ?case
  proof (cases "c = Token_END")
    case True
    then show ?thesis by simp
  next
    case ne: False
    have ih: "\<exists>r. process_loop (Suc d) sim f1 f2 cs (nn', pc', n', s') = Some r" for nn' pc' n' s'
      using Cons.IH[of nn' pc' n' s'] Cons.prems ne by (simp add: calls_Cons)
    show ?thesis
    proof (cases "c = Token_EMPTY")
      case True
      then show ?thesis using ne ih by simp
    next
      case nem: False
      show ?thesis
      proof (cases "c = FUNC_F1 \<and> f1 \<noteq> []")
        case True
        then have "calls (c # cs) FUNC_F1" using ne by (simp add: calls_Cons)
        from Cons.prems(1)[OF this, of s] obtain s' where
          "process_loop d sim f1 f2 f1 (0, 0, 0, s) = Some s'" by blast
        then show ?thesis using True ne nem ih[of nn pc n s'] by simp
      next
        case n1: False
        show ?thesis
        proof (cases "c = FUNC_F2 \<and> f2 \<noteq> []")
          case True
          then have "calls (c # cs) FUNC_F2" using ne by (simp add: calls_Cons)
          from Cons.prems(2)[OF this, of s] obtain s' where
            "process_loop d sim f1 f2 f2 (0, 0, 0, s) = Some s'" by blast
          then show ?thesis using True n1 ne nem ih[of nn pc n s'] by (auto simp: token_defs)
        next
          case n2: False
          obtain nn' pc' n' s' where sm: "state_machine sim c (nn, pc, n, s) = (nn', pc', n', s')"
            by (metis prod_cases4)
          have "process_loop (Suc d) sim f1 f2 (c # cs) (nn, pc, n, s) =
                process_loop (Suc d) sim f1 f2 cs (nn', pc', n', s')"
            unfolding process_loop_plain_token[OF ne nem n1 n2] sm ..
          then show ?thesis using ih[of nn' pc' n' s'] by simp
        qed
      qed
    qed
  qed
qed

lemma process_loop_mono:
  "process_loop d sim f1 f2 cmds st = Some r \<Longrightarrow> process_loop (Suc d) sim f1 f2 cmds st = Some r"
proof (induction d sim f1 f2 cmds st arbitrary: r rule: process_loop.induct)
  case (1 depth sim f1 f2 need_next pc n_iter s)
  then show ?case by simp
next
  case (2 depth sim f1 f2 cmd rest need_next pc n_iter s)
  note prem = "2.prems"
  show ?case
  proof (cases "cmd = Token_END")
    case True
    then show ?thesis using prem by simp
  next
    case ne: False
    show ?thesis
    proof (cases "cmd = Token_EMPTY")
      case True
      have "process_loop depth sim f1 f2 rest (need_next, pc, n_iter, s) = Some r"
        using prem ne True by simp
      from "2.IH"(1)[OF ne True this] show ?thesis using ne True by simp
    next
      case nem: False
      show ?thesis
      proof (cases "cmd = FUNC_F1 \<and> f1 \<noteq> []")
        case True
        from prem ne nem True obtain d s' where d: "depth = Suc d"
          and c: "process_loop d sim f1 f2 f1 (0, 0, 0, s) = Some s'"
          and k: "process_loop depth sim f1 f2 rest (need_next, pc, n_iter, s') = Some r"
          by (auto split: nat.splits option.splits)
        have "process_loop (Suc d) sim f1 f2 f1 (0, 0, 0, s) = Some s'"
          using "2.IH"(2)[OF ne nem True d c] .
        moreover have "process_loop (Suc depth) sim f1 f2 rest (need_next, pc, n_iter, s') = Some r"
          using "2.IH"(3)[OF ne nem True d c k] .
        ultimately show ?thesis using True ne nem d by simp
      next
        case n1: False
        show ?thesis
        proof (cases "cmd = FUNC_F2 \<and> f2 \<noteq> []")
          case True
          from prem ne nem n1 True obtain d s' where d: "depth = Suc d"
            and c: "process_loop d sim f1 f2 f2 (0, 0, 0, s) = Some s'"
            and k: "process_loop depth sim f1 f2 rest (need_next, pc, n_iter, s') = Some r"
            by (auto split: nat.splits option.splits)
          have "process_loop (Suc d) sim f1 f2 f2 (0, 0, 0, s) = Some s'"
            using "2.IH"(4)[OF ne nem n1 True d c] .
          moreover have "process_loop (Suc depth) sim f1 f2 rest (need_next, pc, n_iter, s') = Some r"
            using "2.IH"(5)[OF ne nem n1 True d c k] .
          ultimately show ?thesis using True n1 ne nem d by (auto simp: token_defs)
        next
          case n2: False
          have "process_loop depth sim f1 f2 rest (state_machine sim cmd (need_next, pc, n_iter, s)) = Some r"
            using prem unfolding process_loop_plain_token[OF ne nem n1 n2] .
          from "2.IH"(6)[OF ne nem n1 n2 this] show ?thesis
            unfolding process_loop_plain_token[OF ne nem n1 n2] .
        qed
      qed
    qed
  qed
qed

lemma acyclic_depth_three:
  "(acyclic_bodies f1 f2 \<longrightarrow> (\<exists>r. process_commands 3 sim commands f1 f2 s = Some r)) \<and>
   (acyclic_bodies (func1 (parse_program sim program)) (func2 (parse_program sim program)) \<longrightarrow>
      (\<exists>score' sim'. simulate_program 3 sim program = Some (score', sim')))"
proof -
  have pc: "\<exists>r. process_commands 3 sim commands f1 f2 s = Some r"
    if a: "acyclic_bodies f1 f2" for f1 f2 commands s
  proof -
    have three: "3 = Suc (Suc (Suc 0))" by simp
    show ?thesis
    proof (cases "calls f1 FUNC_F2")
      case True
      with a have n2: "\<not> calls f2 FUNC_F1" "\<not> calls f2 FUNC_F2" and n1: "\<not> calls f1 FUNC_F1"
        by (auto simp: acyclic_bodies_def)
      have b2: "\<exists>r. process_loop (Suc d) sim f1 f2 f2 (0, 0, 0, s) = Some r" for d s
        by (rule process_loop_returns) (use n2 in auto)
      have b1: "\<exists>r. process_loop (Suc (Suc 0)) sim f1 f2 f1 (0, 0, 0, s) = Some r" for s
        by (rule process_loop_returns) (use n1 b2[of 0] in auto)
      show ?thesis
        unfolding process_commands_def three
        by (rule process_loop_returns) (use b1 b2[of "Suc 0"] in auto)
    next
      case False
      with a have n1: "\<not> calls f1 FUNC_F1" "\<not> calls f1 FUNC_F2" and n2: "\<not> calls f2 FUNC_F2"
        by (auto simp: acyclic_bodies_def)
      have b1: "\<exists>r. process_loop (Suc d) sim f1 f2 f1 (0, 0, 0, s) = Some r" for d s
        by (rule process_loop_returns) (use n1 in auto)
      have b2: "\<exists>r. process_loop (Suc (Suc 0)) sim f1 f2 f2 (0, 0, 0, s) = Some r" for s
        by (rule process_loop_returns) (use n2 b1[of 0] in auto)
      show ?thesis
        unfolding process_commands_def three
        by (rule process_loop_returns) (use b2 b1[of "Suc 0"] in auto)
    qed
  qed
  have sp: "\<exists>score' sim'. simulate_program 3 sim program = Some (score', sim')"
    if a: "acyclic_bodies (func1 (parse_program sim program)) (func2 (parse_program sim program))"
  proof -
    let ?p = "parse_program sim program"
    from pc[OF a, of "main_cmd ?p"
        "\<lparr> actions = [], wall_collisions = {}, sim_state = m_state sim, action_idx = 0 \<rparr>"]
    obtain ar where "get_mouse_actions 3 sim (main_cmd ?p) (func1 ?p) (func2 ?p) (m_state sim) = Some ar"
      by (auto simp: get_mouse_actions_def)
    then show ?thesis
      by (simp add: simulate_program_def Let_def split: prod.splits)
  qed
  show ?thesis using pc sp by blast
qed

lemma process_loop_mono_le:
  "d \<le> d' \<Longrightarrow> process_loop d sim f1 f2 cmds st = Some r \<Longrightarrow>
   process_loop d' sim f1 f2 cmds st = Some r"
proof (induction d' arbitrary: d)
  case 0
  then show ?case by simp
next
  case (Suc d')
  show ?case
  proof (cases "d = Suc d'")
    case True
    then show ?thesis using Suc.prems by simp
  next
    case False
    then have "d \<le> d'" using Suc.prems by simp
    from process_loop_mono[OF Suc.IH[OF this Suc.prems(2)]] show ?thesis .
  qed
qed

lemma simulate_program_depth:
  assumes "get_mouse_actions d1 sim (main_cmd (parse_program sim program))
             (func1 (parse_program sim program)) (func2 (parse_program sim program)) (m_state sim) =
           get_mouse_actions d2 sim (main_cmd (parse_program sim program))
             (func1 (parse_program sim program)) (func2 (parse_program sim program)) (m_state sim)"
  shows "simulate_program d1 sim program = simulate_program d2 sim program"
  unfolding simulate_program_def using assms by (simp only: Let_def)

text \<open>Claim C3, amended. When the two function bodies do not call each other in a
  cycle (neither calls its own slot, and they do not call one another), the
  execution pass returns on every command sequence from every state, with the same
  result at every call depth from 3 on, and \<^verbatim>\<open>simulate_program\<close> returns a score.\<close>

theorem acyclic_calls_return:
  "(acyclic_bodies f1 f2 \<longrightarrow>
      (\<exists>r. \<forall>depth\<ge>3. process_commands depth sim commands f1 f2 s = Some r)) \<and>
   (acyclic_bodies (func1 (parse_program sim program)) (func2 (parse_program sim program)) \<longrightarrow>
      (\<exists>score' sim'. \<forall>depth\<ge>3. simulate_program depth sim program = Some (score', sim')))"
proof -
  have pc: "\<exists>r. \<forall>depth\<ge>3. process_commands depth sim commands f1 f2 s = Some r"
    if a: "acyclic_bodies f1 f2" for f1 f2 commands s
  proof -
    from acyclic_depth_three[of f1 f2 sim commands s] a
    obtain r where three: "process_loop 3 sim f1 f2 commands (0, 0, 0, s) = Some r"
      unfolding process_commands_def by blast
    have "process_commands depth sim commands f1 f2 s = Some r" if "depth \<ge> 3" for depth
      unfolding process_commands_def by (rule process_loop_mono_le[OF that three])
    then show ?thesis by blast
  qed
  have sp: "\<exists>score' sim'. \<forall>depth\<ge>3. simulate_program depth sim program = Some (score', sim')"
    if a: "acyclic_bodies (func1 (parse_program sim program)) (func2 (parse_program sim program))"
  proof -
    let ?p = "parse_program sim program"
    let ?s0 = "\<lparr> actions = [], wall_collisions = {}, sim_state = m_state sim, action_idx = 0 \<rparr>"
    from pc[OF a, of "main_cmd ?p" ?s0]
    obtain r where r: "\<forall>depth\<ge>3. process_commands depth sim (main_cmd ?p) (func1 ?p) (func2 ?p) ?s0 = Some r"
      by blast
    have g: "get_mouse_actions depth sim (main_cmd ?p) (func1 ?p) (func2 ?p) (m_state sim)
                   = Some (ActionResult.truncate r)" if "depth \<ge> 3" for depth
      using r that by (simp add: get_mouse_actions_def)
    have "\<exists>score' sim'. simulate_program 3 sim program = Some (score', sim')"
      using a acyclic_depth_three[of f1 f2 sim commands s program] by (rule_tac conjunct2[THEN mp])
    then obtain sc sim' where three: "simulate_program 3 sim program = Some (sc, sim')" by blast
    have eq: "simulate_program depth sim program = simulate_program 3 sim program"
      if "depth \<ge> 3" for depth
      by (rule simulate_program_depth) (simp only: g[OF that] g[OF order_refl])
    have "simulate_program depth sim program = Some (sc, sim')" if "depth \<ge> 3" for depth
      using eq[OF that] three by (rule trans)
    then show ?thesis by blast
  qed
  show ?thesis
  proof (intro conjI impI)
    assume "acyclic_bodies f1 f2"
    then show "\<exists>r. \<forall>depth\<ge>3. process_commands depth sim commands f1 f2 s = Some r" by (rule pc)
  next
    assume "acyclic_bodies (func1 (parse_program sim program)) (func2 (parse_program sim program))"
    then show "\<exists>score' sim'. \<forall>depth\<ge>3. simulate_program depth sim program = Some (score', sim')"
      by (rule sp)
  qed
qed

theorem acyclic_calls_return_witness:
  "acyclic_bodies [0, FUNC_F2] [3] \<and>
   (\<exists>r. process_commands 3 demo_simulator [FUNC_F1, FUNC_F2] [0, FUNC_F2] [3] (initial_exec init_level3) = Some r) \<and>
   (\<exists>score' sim'. simulate_program 3 demo_simulator [113, 114, Token_END] = Some (score', sim'))"
proof -
  have p: "parse_program demo_simulator [113, 114, Token_END] =
           \<lparr> main_cmd = [FUNC_F1, FUNC_F2], func1 = [0, FUNC_F2], func2 = [3] \<rparr>"
    by (simp add: parse_program_def demo_simulator_def demo_library_def is_func_lib_def token_defs)
  have a: "acyclic_bodies [0, FUNC_F2] [3]"
    by (simp add: acyclic_bodies_def calls_def token_defs)
  then have a': "acyclic_bodies (func1 (parse_program demo_simulator [113, 114, Token_END]))
                   (func2 (parse_program demo_simulator [113, 114, Token_END]))"
    by (simp add: p)
  note t = acyclic_calls_return[of "[0, FUNC_F2]" "[3]" demo_simulator "[FUNC_F1, FUNC_F2]"
        "initial_exec init_level3" "[113, 114, Token_END]"]
  from t a obtain r where
    "\<forall>depth\<ge>3. process_commands depth demo_simulator [FUNC_F1, FUNC_F2] [0, FUNC_F2] [3]
        (initial_exec init_level3) = Some r"
    by blast
  then have one: "\<exists>r. process_commands 3 demo_simulator [FUNC_F1, FUNC_F2] [0, FUNC_F2] [3]
        (initial_exec init_level3) = Some r"
    by auto
  from t a' obtain sc sim' where
    "\<forall>depth\<ge>3. simulate_program depth demo_simulator [113, 114, Token_END] = Some (sc, sim')"
    by blast
  then have two: "\<exists>score' sim'. simulate_program 3 demo_simulator [113, 114, Token_END] = Some (score', sim')"
    by auto
  show ?thesis using a one two by (intro conjI)
qed

section \<open>Snapshots never carry an inactive entity\<close>

lemma read_entities_active:
  "read_entities vs es = Inr es' \<Longrightarrow> list_all active es \<Longrightarrow> list_all active es'"
  by (induction vs es arbitrary: es' rule: read_entities.induct)
     (auto simp: bind_def split: sum.splits)

lemma read_last_pos_active:
  "read_last_pos vs es = Inr es' \<Longrightarrow> list_all active es \<Longrightarrow> list_all active es'"
  by (induction vs es arbitrary: es' rule: read_last_pos.induct)
     (auto simp: bind_def split: sum.splits)

lemma read_directions_active:
  "list_all active es \<Longrightarrow> list_all active (read_directions ds es)"
  by (induction ds es rule: read_directions.induct) auto

lemma reset_active:
  "list_all active (cats GameState_reset)" "list_all active (movbc GameState_reset)"
  "list_all active (crzbc GameState_reset)"
  by (simp_all add: GameState_reset_def Entity_init_def list_all_iff)

lemma read_cats_active: "read_cats d es = Inr es' \<Longrightarrow> list_all active es \<Longrightarrow> list_all active es'"
  by (auto simp: read_cats_def bind_def split: sum.splits option.splits
      dest: read_entities_active read_last_pos_active intro: read_directions_active)

lemma read_movbc_active: "read_movbc d es = Inr es' \<Longrightarrow> list_all active es \<Longrightarrow> list_all active es'"
  by (auto simp: read_movbc_def bind_def split: sum.splits dest: read_entities_active)

lemma read_crzbc_active: "read_crzbc d es = Inr es' \<Longrightarrow> list_all active es \<Longrightarrow> list_all active es'"
  by (auto simp: read_crzbc_def bind_def split: sum.splits option.splits
      dest: read_entities_active intro: read_directions_active)

lemma dict_to_state_active: "dict_to_state d = Inr st \<Longrightarrow> all_active st"
  unfolding dict_to_state_def all_active_def
  by (auto simp: bind_def split: sum.splits prod.splits
      dest: read_cats_active[OF _ reset_active(1)] read_movbc_active[OF _ reset_active(2)]
        read_crzbc_active[OF _ reset_active(3)])

lemma read_position_vec: "read_position (position_vec p) = Inr \<lparr> x = to_int8 (x p), y = to_int8 (y p) \<rparr>"
  by (simp add: read_position_def position_vec_def at_def bind_def)

lemma read_entities_total: "\<exists>es'. read_entities (map (\<lambda>e. position_vec (f e)) vs) es = Inr es'"
proof (induction vs arbitrary: es)
  case Nil
  show ?case by simp
next
  case (Cons v vs)
  show ?case
  proof (cases es)
    case Nil
    then show ?thesis by simp
  next
    case (Cons e es0)
    from Cons.IH[of es0] obtain es' where "read_entities (map (\<lambda>e. position_vec (f e)) vs) es0 = Inr es'"
      by blast
    then show ?thesis using Cons by (simp add: read_position_vec bind_def)
  qed
qed

lemma read_last_pos_total: "\<exists>es'. read_last_pos (map (\<lambda>e. position_vec (f e)) vs) es = Inr es'"
proof (induction vs arbitrary: es)
  case Nil
  show ?case by simp
next
  case (Cons v vs)
  show ?case
  proof (cases es)
    case Nil
    then show ?thesis by simp
  next
    case (Cons e es0)
    from Cons.IH[of es0] obtain es' where "read_last_pos (map (\<lambda>e. position_vec (f e)) vs) es0 = Inr es'"
      by blast
    then show ?thesis using Cons by (simp add: read_position_vec bind_def)
  qed
qed

lemma read_grid_rows: "\<exists>g'. read_grid (grid_rows g) = Inr g'"
proof -
  have "length (grid_rows g) = 11" by (simp add: grid_rows_def)
  moreover have "list_all (\<lambda>i. length (grid_rows g ! i) \<ge> 11) [0..<11]"
    unfolding list_all_iff set_upt by (simp add: grid_rows_def)
  ultimately show ?thesis by (simp add: read_grid_def)
qed

lemma export_restores: "\<exists>st'. dict_to_state (state_to_dict st0) = Inr st'"
proof -
  obtain m where m: "read_mouse (state_to_dict st0) = Inr m"
    by (simp add: read_mouse_def state_to_dict_def required_def bind_def read_position_vec)
  obtain c1 where "read_entities (map (\<lambda>c. position_vec (pos c)) (cats st0)) (cats GameState_reset) = Inr c1"
    using read_entities_total by blast
  moreover obtain c2 where "read_last_pos (map (\<lambda>c. position_vec (last_pos c)) (cats st0)) c1 = Inr c2"
    using read_last_pos_total by blast
  ultimately obtain c where c: "read_cats (state_to_dict st0) (cats GameState_reset) = Inr c"
    by (simp add: read_cats_def state_to_dict_def required_def bind_def)
  obtain g1 g2 g3 g4 where
    "read_grid (grid_rows (sc st0)) = Inr g1" "read_grid (grid_rows (wall st0)) = Inr g2"
    "read_grid (grid_rows (junc st0)) = Inr g3" "read_grid (grid_rows (deadend st0)) = Inr g4"
    using read_grid_rows by metis
  then obtain l where l: "read_layers (state_to_dict st0) = Inr l"
    by (simp add: read_layers_def state_to_dict_def required_def bind_def)
  obtain mv where mv: "read_movbc (state_to_dict st0) (movbc GameState_reset) = Inr mv"
    using read_entities_total[of pos "movbc st0" "movbc GameState_reset"]
    by (auto simp: read_movbc_def state_to_dict_def required_def bind_def)
  obtain cz where cz: "read_crzbc (state_to_dict st0) (crzbc GameState_reset) = Inr cz"
    using read_entities_total[of pos "crzbc st0" "crzbc GameState_reset"]
    by (auto simp: read_crzbc_def state_to_dict_def required_def bind_def)
  obtain sv where sv: "read_scalars (state_to_dict st0) = Inr sv"
    by (simp add: read_scalars_def state_to_dict_def required_def bind_def)
  show ?thesis
    unfolding dict_to_state_def m c l mv cz sv
    by (simp add: bind_def split: prod.splits)
qed

text \<open>Claim C10. Every state that \<^verbatim>\<open>dict_to_state\<close> builds has all its pursuers,
  stationary bonus items and roaming bonus items active, whatever the dictionary; and
  every exported state can be restored, so that restoring a state exported after a
  collection yields the collected items active again.\<close>

theorem snapshot_reactivates:
  "(dict_to_state d = Inr st \<longrightarrow> all_active st) \<and>
   (\<exists>st'. dict_to_state (state_to_dict st0) = Inr st' \<and> all_active st')"
  using dict_to_state_active export_restores by blast

theorem snapshot_reactivates_witness:
  "map active (movbc collected_level3) = [False, True] \<and>
   (\<exists>st'. dict_to_state (state_to_dict collected_level3) = Inr st' \<and> all_active st') \<and>
   (case dict_to_state (state_to_dict collected_level3) of
      Inl e \<Rightarrow> False
    | Inr st' \<Rightarrow> map active (movbc st') = [True, True] \<and> map pos (movbc st') = map pos (movbc collected_level3))"
proof -
  have a: "map active (movbc collected_level3) = [False, True]"
    by (simp add: collected_level3_def init_level3_def mk_entity_def)
  have b: "case dict_to_state (state_to_dict collected_level3) of
      Inl e \<Rightarrow> False
    | Inr st' \<Rightarrow> map active (movbc st') = [True, True] \<and> map pos (movbc st') = map pos (movbc collected_level3)"
    by code_simp
  show ?thesis
    using a b snapshot_reactivates[of "state_to_dict collected_level3" _ collected_level3] by blast
qed

section \<open>The simulator's state across a run\<close>

text \<open>Claim C9. A call of \<^verbatim>\<open>simulate_program\<close> that returns leaves the stored game
  state as it was (and the library and the level; only the generator advances), and
  \<^verbatim>\<open>simulate_program_and_apply\<close> returns the same score and the same simulator.\<close>

theorem simulate_keeps_state:
  "simulate_program depth sim program = Some (score', sim') \<longrightarrow>
     m_state sim' = m_state sim \<and> m_func_lib sim' = m_func_lib sim \<and> m_level sim' = m_level sim \<and>
     simulate_program_and_apply depth sim program = Some (score', sim')"
  by (auto simp: simulate_program_def simulate_program_and_apply_def Let_def
      split: option.splits prod.splits)

theorem simulate_keeps_state_witness:
  "map_option fst (simulate_program 0 level3_simulator [0, Token_END]) = Some 10 \<and>
   map_option (m_state \<circ> snd) (simulate_program 0 level3_simulator [0, Token_END]) =
     Some (m_state level3_simulator) \<and>
   simulate_program_and_apply 0 level3_simulator [0, Token_END] =
     simulate_program 0 level3_simulator [0, Token_END]"
proof -
  have s: "map_option fst (simulate_program 0 level3_simulator [0, Token_END]) = Some 10"
    by code_simp
  then obtain sim' where e: "simulate_program 0 level3_simulator [0, Token_END] = Some (10, sim')"
    by (cases "simulate_program 0 level3_simulator [0, Token_END]") auto
  from simulate_keeps_state[of 0 level3_simulator "[0, Token_END]" 10 sim'] e
  show ?thesis by simp
qed

section \<open>Losing the last life on the tick that clears the board\<close>

lemma movable_state: "m_state sim' = m_state sim \<Longrightarrow> movable sim' p d = movable sim p d"
  by (simp add: movable_def)

lemma cat_tick_state: "m_state sim' = m_state sim \<Longrightarrow> cat_tick sim' i k a st = cat_tick sim i k a st"
  by (simp only: cat_tick_def movable_state[of sim' sim])

lemma crzbc_tick_state:
  "m_state sim' = m_state sim \<Longrightarrow> crzbc_tick sim' cz itr j st = crzbc_tick sim cz itr j st"
  by (simp only: crzbc_tick_def movable_state[of sim' sim])

lemma tick_state: "m_state sim' = m_state sim \<Longrightarrow> tick sim' ar ca cz n itr a v = tick sim ar ca cz n itr a v"
  by (simp only: tick_def movable_state[of sim' sim] cat_tick_state[of sim' sim]
      crzbc_tick_state[of sim' sim])

lemma tick_loop_state:
  "m_state sim' = m_state sim \<Longrightarrow>
   tick_loop sim' ar ca cz n itr acts v = tick_loop sim ar ca cz n itr acts v"
proof (induction acts arbitrary: itr v)
  case Nil
  show ?case by simp
next
  case (Cons a acts)
  show ?case
    by (simp only: tick_loop.simps tick_state[OF Cons.prems] Cons.IH[OF Cons.prems])
qed

lemma uniform_int_range: "uniform_int 0 3 g = (nd, g') \<Longrightarrow> 0 \<le> nd \<and> nd \<le> 3"
  by (auto simp: uniform_int_def)

lemma blocked_probe_only:
  assumes "\<And>dir. 0 \<le> dir \<Longrightarrow> dir \<le> 3 \<Longrightarrow> passable st (move p dir) \<Longrightarrow> dir = e"
  shows "fst (blocked_probe n st p g) = None \<or> fst (blocked_probe n st p g) = Some (move p e, e)"
proof (induction n arbitrary: g)
  case 0
  show ?case by simp
next
  case (Suc n)
  obtain a g1 where u: "uniform_int 0 (Direction_COUNT - 1) g = (a, g1)" by fastforce
  then have r: "0 \<le> a \<and> a \<le> 3" using uniform_int_range by (simp add: Direction_COUNT_def)
  show ?case
  proof (cases "passable st (move p a)")
    case True
    with assms r have "a = e" by blast
    with True u show ?thesis by (simp add: Let_def)
  next
    case False
    with u Suc[of g1] show ?thesis by (simp add: Let_def)
  qed
qed


lemma blocked_probe_none:
  assumes "\<And>dir. 0 \<le> dir \<Longrightarrow> dir \<le> 3 \<Longrightarrow> \<not> passable st (move p dir)"
  shows "fst (blocked_probe n st p g) = None"
proof (induction n arbitrary: g)
  case 0
  show ?case by simp
next
  case (Suc n)
  obtain a g1 where u: "uniform_int 0 (Direction_COUNT - 1) g = (a, g1)" by fastforce
  then have r: "0 \<le> a \<and> a \<le> 3" using uniform_int_range by (simp add: Direction_COUNT_def)
  with assms have "\<not> passable st (move p a)" by blast
  with u Suc[of g1] show ?case by (simp add: Let_def)
qed

lemma four_directions: "0 \<le> dir \<Longrightarrow> dir \<le> 3 \<Longrightarrow> dir = 0 \<or> dir = 1 \<or> dir = 2 \<or> dir = (3::int)"
  by arith

lemma last_cheese_pursuer0:
  assumes "0 \<le> dir" "dir \<le> 3" "passable last_cheese_state (move \<lparr> x = 0, y = 1 \<rparr> dir)"
  shows "dir = 2"
proof -
  have "\<not> passable last_cheese_state (move \<lparr> x = 0, y = 1 \<rparr> 0)"
       "\<not> passable last_cheese_state (move \<lparr> x = 0, y = 1 \<rparr> 1)"
       "\<not> passable last_cheese_state (move \<lparr> x = 0, y = 1 \<rparr> 3)"
    by code_simp+
  with assms four_directions[OF assms(1,2)] show ?thesis by auto
qed

lemma last_cheese_pursuer1:
  assumes "0 \<le> dir" "dir \<le> 3"
  shows "\<not> passable last_cheese_state (move \<lparr> x = 10, y = 10 \<rparr> dir)"
proof -
  have "\<not> passable last_cheese_state (move \<lparr> x = 10, y = 10 \<rparr> 0)"
       "\<not> passable last_cheese_state (move \<lparr> x = 10, y = 10 \<rparr> 1)"
       "\<not> passable last_cheese_state (move \<lparr> x = 10, y = 10 \<rparr> 2)"
       "\<not> passable last_cheese_state (move \<lparr> x = 10, y = 10 \<rparr> 3)"
    by code_simp+
  with four_directions[OF assms] show ?thesis by auto
qed

lemma last_cheese_facts:
  "junc last_cheese_state i j = 0"
  "cats last_cheese_state = [mk_entity 0 1 0, mk_entity 10 10 0]"
  "\<not> active (crzbc last_cheese_state ! 0)" "\<not> active (crzbc last_cheese_state ! Suc 0)"
  "score last_cheese_state = 0" "life last_cheese_state = 1"
  "mouse last_cheese_state = \<lparr> x = 0, y = 0 \<rparr>"
  "m_state (last_cheese_simulator \<lparr> m_rng := g \<rparr>) = last_cheese_state"
  "m_func_lib (last_cheese_simulator \<lparr> m_rng := g \<rparr>) = (\<lambda>i. [])"
  by (simp_all add: last_cheese_state_def last_cheese_simulator_def GameState_reset_def
      DEFAULT_LIFE_def)

lemma last_cheese_not_movable:
  "\<not> movable (last_cheese_simulator \<lparr> m_rng := g \<rparr>) \<lparr> x = 0, y = 1 \<rparr> 0"
  "\<not> movable (last_cheese_simulator \<lparr> m_rng := g \<rparr>) \<lparr> x = 10, y = 10 \<rparr> 0"
  "movable (last_cheese_simulator \<lparr> m_rng := g \<rparr>) \<lparr> x = 0, y = 0 \<rparr> 3"
proof -
  have "\<not> movable last_cheese_simulator \<lparr> x = 0, y = 1 \<rparr> 0"
       "\<not> movable last_cheese_simulator \<lparr> x = 10, y = 10 \<rparr> 0"
       "movable last_cheese_simulator \<lparr> x = 0, y = 0 \<rparr> 3"
    by code_simp+
  then show "\<not> movable (last_cheese_simulator \<lparr> m_rng := g \<rparr>) \<lparr> x = 0, y = 1 \<rparr> 0"
    "\<not> movable (last_cheese_simulator \<lparr> m_rng := g \<rparr>) \<lparr> x = 10, y = 10 \<rparr> 0"
    "movable (last_cheese_simulator \<lparr> m_rng := g \<rparr>) \<lparr> x = 0, y = 0 \<rparr> 3"
    by (simp_all add: movable_state[of "last_cheese_simulator \<lparr> m_rng := g \<rparr>" last_cheese_simulator])
qed

lemma last_cheese_plan:
  "fst (pre_calculate_cat_actions (last_cheese_simulator \<lparr> m_rng := g \<rparr>) [3] last_cheese_state g)
     \<in> {[[0], [0]], [[2], [0]]}"
proof -
  let ?sim = "last_cheese_simulator \<lparr> m_rng := g \<rparr>"
  let ?st = last_cheese_state
  let ?p0 = "\<lparr> x = 0, y = 1 \<rparr>" and ?p1 = "\<lparr> x = 10, y = 10 \<rparr>"
  obtain r0 g0 where b0: "blocked_probe MAX_RANDOM_TRIES ?st ?p0 g = (r0, g0)" by fastforce
  obtain r1 g1 where b1: "blocked_probe MAX_RANDOM_TRIES ?st ?p1 g0 = (r1, g1)" by fastforce
  have r0: "r0 = None \<or> r0 = Some (move ?p0 2, 2)"
    using blocked_probe_only[of ?st ?p0 2 MAX_RANDOM_TRIES g] last_cheese_pursuer0 b0 by auto
  have r1: "r1 = None"
    using blocked_probe_none[of ?st ?p1 MAX_RANDOM_TRIES g0] last_cheese_pursuer1 b1 by auto
  obtain v0 a0 where s0: "virtual_step ?sim ?st (?p0, 0) g = (v0, a0, g0)" "a0 = 0 \<or> a0 = 2"
    using r0 b0 last_cheese_not_movable(1)[of g]
    by (auto simp: virtual_step_def last_cheese_facts fallback_action_def Direction_COUNT_def)
  obtain v1 where s1: "virtual_step ?sim ?st (?p1, 0) g0 = (v1, 0, g1)"
    using r1 b1 last_cheese_not_movable(2)[of g]
    by (auto simp: virtual_step_def last_cheese_facts fallback_action_def Direction_COUNT_def)
  have "fst (pre_calculate_cat_actions ?sim [3] ?st g) = [[a0], [0]]"
    by (simp add: pre_calculate_cat_actions_def cat_plan_step_def plan_entity_def NUM_CATS_def
        numeral_2_eq_2 last_cheese_facts mk_entity_def s0 s1)
  with s0(2) show ?thesis by auto
qed

lemma last_cheese_crzbc_plan:
  "fst (pre_calculate_crzbc_actions sim n last_cheese_state g) = [[], []]"
proof -
  have step: "crzbc_plan_step sim last_cheese_state pl = pl" for pl
    by (simp add: crzbc_plan_step_def NUM_CRZBC_def numeral_2_eq_2 last_cheese_facts)
  have "(crzbc_plan_step sim last_cheese_state ^^ k) pl = pl" for k pl
    by (induction k) (simp_all add: step)
  then show ?thesis
    by (simp add: pre_calculate_crzbc_actions_def NUM_CRZBC_def numeral_2_eq_2)
qed

lemma last_cheese_actions:
  "get_mouse_actions 0 (last_cheese_simulator \<lparr> m_rng := g \<rparr>) [3] [] [] last_cheese_state =
     Some \<lparr> actions = [3], wall_collisions = {} \<rparr>"
  using last_cheese_not_movable(3)[of g]
  by (simp add: get_mouse_actions_def process_commands_def state_machine_def attempt_move_def
      is_direction_def token_defs ActionResult.truncate_def last_cheese_facts)

lemma last_cheese_ticks:
  "virtual_score (final_win_check (tick_loop last_cheese_simulator
      \<lparr> actions = [3], wall_collisions = {} \<rparr> [[0], [0]] [[], []] 2 0 [3]
      \<lparr> v_state = last_cheese_state, virtual_score = 0, virtual_life = 1 \<rparr>)) = -489"
  "virtual_score (final_win_check (tick_loop last_cheese_simulator
      \<lparr> actions = [3], wall_collisions = {} \<rparr> [[2], [0]] [[], []] 2 0 [3]
      \<lparr> v_state = last_cheese_state, virtual_score = 0, virtual_life = 1 \<rparr>)) = -489"
  by code_simp+

lemma last_cheese_score:
  "map_option fst (simulate_program 0 (last_cheese_simulator \<lparr> m_rng := g \<rparr>) [3, Token_END]) =
     Some (-489)"
proof -
  let ?sim = "last_cheese_simulator \<lparr> m_rng := g \<rparr>"
  have p: "parse_program ?sim [3, Token_END] = \<lparr> main_cmd = [3], func1 = [], func2 = [] \<rparr>"
    by (simp add: parse_program_def is_func_lib_def token_defs)
  have cl: "command_length [3, Token_END] = 2" by (simp add: token_defs)
  obtain ca g1 where ca: "pre_calculate_cat_actions ?sim [3] last_cheese_state g = (ca, g1)"
    by fastforce
  obtain cz g2 where cz: "pre_calculate_crzbc_actions ?sim 2 last_cheese_state g1 = (cz, g2)"
    by fastforce
  have ca': "ca = [[0], [0]] \<or> ca = [[2], [0]]" using last_cheese_plan[of g] ca by simp
  have cz': "cz = [[], []]" using last_cheese_crzbc_plan[of ?sim 2 g1] cz by simp
  have ts: "tick_loop ?sim ar ca cz n itr acts v = tick_loop last_cheese_simulator ar ca cz n itr acts v"
    for ar n itr acts v
    by (rule tick_loop_state) (simp add: last_cheese_simulator_def)
  have "simulate_program 0 ?sim [3, Token_END] =
        Some (virtual_score (final_win_check (tick_loop last_cheese_simulator
                \<lparr> actions = [3], wall_collisions = {} \<rparr> ca cz 2 0 [3]
                \<lparr> v_state = last_cheese_state, virtual_score = 0, virtual_life = 1 \<rparr>)),
              ?sim \<lparr> m_rng := g2 \<rparr>)"
    unfolding simulate_program_def Let_def p cl
    by (simp add: last_cheese_actions last_cheese_facts ca cz ts
        del: tick_loop.simps command_length.simps)
  then show ?thesis using ca' cz' last_cheese_ticks by auto
qed

lemma last_cheese_tick:
  "(let (v, stop) = tick last_cheese_simulator \<lparr> actions = [3], wall_collisions = {} \<rparr>
                      [[0], [0]] [[], []] 2 0 3
                      \<lparr> v_state = last_cheese_state, virtual_score = 0, virtual_life = 1 \<rparr>
    in (virtual_score v, virtual_life v, stop)) = (-490, 0, True)"
  "(let (v, stop) = tick last_cheese_simulator \<lparr> actions = [3], wall_collisions = {} \<rparr>
                      [[2], [0]] [[], []] 2 0 3
                      \<lparr> v_state = last_cheese_state, virtual_score = 0, virtual_life = 1 \<rparr>
    in (virtual_score v, virtual_life v, stop)) = (-490, 0, True)"
  by code_simp+

text \<open>Claim C7 on that state with the program of one step to the right. Whatever the
  generator draws, the planned action of pursuer 0 is 0 or 2 and that of pursuer 1
  is 0; with either plan the tick ends with life 0 and score -490 and stops the
  loop. The check after the loop then finds no collectible left and adds the victory
  bonus, so that the score returned is -489.\<close>

theorem life_zero_then_victory_bonus:
  "fst (pre_calculate_cat_actions (last_cheese_simulator \<lparr> m_rng := g \<rparr>) [3] last_cheese_state g)
     \<in> {[[0], [0]], [[2], [0]]} \<and>
   (let (v, stop) = tick last_cheese_simulator \<lparr> actions = [3], wall_collisions = {} \<rparr>
                      [[0], [0]] [[], []] 2 0 3
                      \<lparr> v_state = last_cheese_state, virtual_score = 0, virtual_life = 1 \<rparr>
    in (virtual_score v, virtual_life v, stop)) = (-490, 0, True) \<and>
   (let (v, stop) = tick last_cheese_simulator \<lparr> actions = [3], wall_collisions = {} \<rparr>
                      [[2], [0]] [[], []] 2 0 3
                      \<lparr> v_state = last_cheese_state, virtual_score = 0, virtual_life = 1 \<rparr>
    in (virtual_score v, virtual_life v, stop)) = (-490, 0, True) \<and>
   map_option fst (simulate_program 0 (last_cheese_simulator \<lparr> m_rng := g \<rparr>) [3, Token_END]) =
     Some (-489)"
  using last_cheese_plan[of g] last_cheese_tick last_cheese_score[of g] by (intro conjI)

section \<open>Planning the pursuers against the per-tick cascade\<close>



















end
